theory Spec2Isabelle
  imports Main "HOL-Library.Sublist"
begin

section \<open>The world outside \<open>main.py\<close>\<close>

text \<open>
  \<open>main.py\<close> talks to four libraries: \<open>requests\<close> (one GET per call), \<open>bs4\<close> (an HTML
  parser and queries on the parsed tree), \<open>html4docx\<close> (a converter) and \<open>zipfile\<close>.
  The first three are parameters of the model; what \<open>zipfile\<close> does with an entry name is
  written out. Python exceptions are values of \<open>exc\<close>; a function that can raise
  returns \<open>exc + 'a\<close>.
\<close>

subsection \<open>Python strings\<close>

text \<open>
  A Python \<open>str\<close> is a list of code points. \<open>Ch c\<close> is the code point of the 8-bit
  character \<open>c\<close> (0 to 255), \<open>Uni n\<close> is the code point \<open>256 + n\<close>. A string literal of
  the source is \<open>lit ''...''\<close>. Bytes (\<open>response.content\<close>, a \<open>BytesIO\<close> buffer) are lists
  of 8-bit characters.
\<close>

datatype pychar = Ch char | Uni nat

type_synonym str = "pychar list"

abbreviation lit :: "string \<Rightarrow> str" where
  "lit s \<equiv> map Ch s"

fun code_point :: "pychar \<Rightarrow> nat" where
  "code_point (Ch c) = of_char c"
| "code_point (Uni n) = 256 + n"

text \<open>The number of bytes of a code point in UTF-8, and the code points UTF-8 cannot encode.\<close>

definition utf8_size :: "pychar \<Rightarrow> nat" where
  "utf8_size c =
     (if code_point c < 128 then 1
      else if code_point c < 2048 then 2
      else if code_point c < 65536 then 3
      else 4)"

definition surrogate :: "pychar \<Rightarrow> bool" where
  "surrogate c = (55296 \<le> code_point c \<and> code_point c \<le> 57343)"

subsection \<open>Exceptions, responses, parsed pages\<close>

datatype exc =
    RequestError string
  | AttributeError
  | TypeError
  | ValueError string
  | Exception string
  | ConverterError string
  | IndexError
  | UnicodeEncodeError
  | StructError

text \<open>
  A \<open>requests.Response\<close>: the fields the code reads. \<open>content\<close> is the body as bytes,
  \<open>text_of\<close> the decoded body (\<open>response.text\<close>, a \<open>str\<close>).
\<close>

record response =
  status_code :: int
  content :: string
  text_of :: str

text \<open>
  \<open>Response.__bool__\<close> is \<open>Response.ok\<close>: false exactly for a status in 400..599.
  Python's \<open>not response\<close> on an optional response is \<open>not_response\<close>.
\<close>

definition ok :: "response \<Rightarrow> bool" where
  "ok r = (\<not> (400 \<le> status_code r \<and> status_code r < 600))"

definition not_response :: "response option \<Rightarrow> bool" where
  "not_response r = (case r of None \<Rightarrow> True | Some resp \<Rightarrow> \<not> ok resp)"

text \<open>
  A parsed \<open>bs4\<close> tag, seen through the queries the code makes on it: \<open>.title\<close>,
  \<open>.string\<close>, \<open>.find("div", {"class": "doc"})\<close>, \<open>.find("div")\<close> and \<open>.prettify()\<close>.
  A tag object is always truthy in Python (\<open>Tag.__bool__\<close> returns \<open>True\<close>), a
  \<open>.string\<close> is a Python string and is falsy when empty.
\<close>

datatype tag =
  Tag (tag_title: "tag option") (tag_string: "str option")
      (find_div_class_doc: "tag option") (find_div: "tag option") (prettify: str)

datatype log_entry =
    Log_exception str
  | Log_error str
  | Log_info str

text \<open>
  The state threaded through every call: the state of the network (of any type \<open>'w\<close>, so
  the same URL may answer differently at different times), the URLs requested so far and
  the records handed to \<open>logging\<close>.
\<close>

record 'w state =
  world :: 'w
  requested :: "str list"
  logged :: "log_entry list"

text \<open>
  The parameters: \<open>requests.get\<close>, the parser \<open>BeautifulSoup(text, "html.parser")\<close>, the
  converter, and \<open>unicode_Nd\<close>, the code points above 255 that are decimal digits
  (category Nd) in the Unicode database of the interpreter.
\<close>

record 'w env =
  requests_get :: "'w \<Rightarrow> str \<Rightarrow> (exc + response) \<times> 'w"
  BeautifulSoup :: "str \<Rightarrow> tag"
  parse_html_string :: "str \<Rightarrow> exc + string"
  unicode_Nd :: "nat \<Rightarrow> bool"

definition logging :: "log_entry \<Rightarrow> 'w state \<Rightarrow> 'w state" where
  "logging e st = st\<lparr>logged := logged st @ [e]\<rparr>"

text \<open>\<open>requests.get(url, timeout=60)\<close>: it returns a response or raises (also on a timeout).\<close>

definition http_get :: "'w env \<Rightarrow> str \<Rightarrow> 'w state \<Rightarrow> (exc + response) \<times> 'w state" where
  "http_get env url st =
     (case requests_get env (world st) url of
        (r, w') \<Rightarrow> (r, st\<lparr>world := w', requested := requested st @ [url]\<rparr>))"

section \<open>Regular expressions and \<open>dict.fromkeys\<close>\<close>

text \<open>
  \<open>\d\<close> in a \<open>str\<close> pattern matches every Unicode decimal digit: \<open>0\<close> to \<open>9\<close> and, above
  code point 255, the code points of category Nd.
\<close>

fun is_digit :: "(nat \<Rightarrow> bool) \<Rightarrow> pychar \<Rightarrow> bool" where
  "is_digit nd (Ch c) = (c \<in> set ''0123456789'')"
| "is_digit nd (Uni n) = nd (256 + n)"

text \<open>
  \<open>re.findall(r"gid=(\d+)", s)\<close>: scan from the left; where \<open>gid=\<close> and at least one digit
  stand, take the longest run of digits and go on after it, elsewhere go on one
  character further.
\<close>

function findall_gid :: "(nat \<Rightarrow> bool) \<Rightarrow> str \<Rightarrow> str list" where
  "findall_gid nd [] = []"
| "findall_gid nd (c # cs) =
     (if prefix (lit ''gid='') (c # cs) \<and> takeWhile (is_digit nd) (drop 4 (c # cs)) \<noteq> []
      then takeWhile (is_digit nd) (drop 4 (c # cs))
             # findall_gid nd (dropWhile (is_digit nd) (drop 4 (c # cs)))
      else findall_gid nd cs)"
  by pat_completeness auto
termination
proof (relation "measure (\<lambda>(nd, s). length s)")
  fix nd :: "nat \<Rightarrow> bool" and c :: pychar and cs :: str
  have "length (dropWhile (is_digit nd) (drop 4 (c # cs))) \<le> length (drop 4 (c # cs))"
    by (rule length_dropWhile_le)
  then show "((nd, dropWhile (is_digit nd) (drop 4 (c # cs))), (nd, c # cs))
      \<in> measure (\<lambda>(nd, s). length s)"
    by simp
qed simp_all

text \<open>\<open>list(dict.fromkeys(xs))\<close>: a key is inserted at the end when it is not yet a key.\<close>

definition dict_fromkeys :: "'a list \<Rightarrow> 'a list" where
  "dict_fromkeys xs = foldl (\<lambda>d k. if k \<in> set d then d else d @ [k]) [] xs"

definition is_sep :: "pychar \<Rightarrow> bool" where
  "is_sep c = (c = Ch CHR ''.'' \<or> c = Ch CHR ''/'' \<or> c = Ch CHR '' '')"

text \<open>\<open>re.sub(r"[./ ]+", "_", s)\<close>: every maximal run of \<open>.\<close>, \<open>/\<close> and space becomes one \<open>_\<close>.\<close>

function re_sub :: "str \<Rightarrow> str" where
  "re_sub [] = []"
| "re_sub (c # cs) =
     (if is_sep c then Ch CHR ''_'' # re_sub (dropWhile is_sep cs) else c # re_sub cs)"
  by pat_completeness auto
termination
proof (relation "measure length")
  fix c :: pychar and cs :: str
  have "length (dropWhile is_sep cs) \<le> length cs"
    by (rule length_dropWhile_le)
  then show "(dropWhile is_sep cs, c # cs) \<in> measure length"
    by simp
qed simp_all

section \<open>The functions of \<open>main.py\<close>\<close>

subsection \<open>\<open>fetch_url\<close> and \<open>fetch_html\<close>\<close>

text \<open>The body of the \<open>try\<close> in \<open>fetch_url\<close>: it raises what \<open>requests.get\<close> raises.\<close>

definition fetch_url_try ::
  "'w env \<Rightarrow> str \<Rightarrow> 'w state \<Rightarrow> (exc + response option) \<times> 'w state" where
  "fetch_url_try env url st =
     (case http_get env url st of
        (Inl e, st') \<Rightarrow> (Inl e, st')
      | (Inr response, st') \<Rightarrow>
          (Inr (if status_code response = 200 then Some response else None), st'))"

text \<open>\<open>fetch_url\<close>: the \<open>try\<close> with its \<open>except Exception\<close> handler, which logs and returns \<open>None\<close>.\<close>

definition fetch_url :: "'w env \<Rightarrow> str \<Rightarrow> 'w state \<Rightarrow> response option \<times> 'w state" where
  "fetch_url env url st =
     (case fetch_url_try env url st of
        (Inr r, st') \<Rightarrow> (r, st')
      | (Inl e, st') \<Rightarrow> (None, logging (Log_exception (lit ''Failed to fetch: '' @ url)) st'))"

definition fetch_html :: "'w env \<Rightarrow> str \<Rightarrow> 'w state \<Rightarrow> tag option \<times> 'w state" where
  "fetch_html env url st =
     (case fetch_url env url st of
        (response, st') \<Rightarrow>
          (case response of
             None \<Rightarrow> (None, st')
           | Some r \<Rightarrow>
               if not_response response then (None, st')
               else (Some (BeautifulSoup env (text_of r)), st')))"

subsection \<open>Spreadsheets\<close>

definition htmlview_url :: "str \<Rightarrow> str" where
  "htmlview_url spreadsheet_id =
     lit ''https://docs.google.com/spreadsheets/u/0/d/'' @ spreadsheet_id @ lit ''/htmlview''"

definition export_url :: "str \<Rightarrow> str \<Rightarrow> str" where
  "export_url spreadsheet_id sheet_id =
     lit ''https://docs.google.com/spreadsheets/d/'' @ spreadsheet_id
       @ lit ''/export?format=csv&gid='' @ sheet_id"

definition gviz_url :: "str \<Rightarrow> str \<Rightarrow> str" where
  "gviz_url spreadsheet_id sheet_id =
     lit ''https://docs.google.com/spreadsheets/d/'' @ spreadsheet_id
       @ lit ''/gviz/tq?tqx=out:csv&gid='' @ sheet_id"

definition get_sheet_ids :: "'w env \<Rightarrow> str \<Rightarrow> 'w state \<Rightarrow> str list \<times> 'w state" where
  "get_sheet_ids env spreadsheet_id st =
     (case fetch_url env (htmlview_url spreadsheet_id) st of
        (response, st') \<Rightarrow>
          (case response of
             None \<Rightarrow> ([lit ''0''], st')
           | Some r \<Rightarrow>
               if not_response response then ([lit ''0''], st')
               else
                 (let sheet_ids = findall_gid (unicode_Nd env) (text_of r) in
                  if sheet_ids = [] then ([lit ''0''], st')
                  else (dict_fromkeys sheet_ids, st'))))"

text \<open>
  \<open>get_spreadsheet_title\<close> tests \<open>soup\<close> and \<open>soup.title\<close> only; \<open>re.sub\<close> on a
  \<open>soup.title.string\<close> that is \<open>None\<close> raises \<open>TypeError\<close>.
\<close>

definition get_spreadsheet_title ::
  "'w env \<Rightarrow> str \<Rightarrow> 'w state \<Rightarrow> (exc + str) \<times> 'w state" where
  "get_spreadsheet_title env spreadsheet_id st =
     (case fetch_html env (htmlview_url spreadsheet_id) st of
        (soup, st') \<Rightarrow>
          (case soup of
             None \<Rightarrow> (Inr (lit ''spreadsheet_'' @ spreadsheet_id), st')
           | Some s \<Rightarrow>
               (case tag_title s of
                  None \<Rightarrow> (Inr (lit ''spreadsheet_'' @ spreadsheet_id), st')
                | Some t \<Rightarrow>
                    (case tag_string t of
                       None \<Rightarrow> (Inl TypeError, st')
                     | Some title \<Rightarrow> (Inr (re_sub title), st')))))"

text \<open>The \<open>for url in urls\<close> loop of \<open>create_sheet\<close>; the buffer is the response's bytes.\<close>

fun create_sheet_loop ::
  "'w env \<Rightarrow> str list \<Rightarrow> 'w state \<Rightarrow> string option \<times> 'w state" where
  "create_sheet_loop env [] st = (None, st)"
| "create_sheet_loop env (url # urls) st =
     (case fetch_url env url st of
        (response, st') \<Rightarrow>
          (case response of
             None \<Rightarrow> create_sheet_loop env urls st'
           | Some r \<Rightarrow>
               if not_response response then create_sheet_loop env urls st'
               else if content r \<noteq> [] \<and> \<not> prefix ''<!DOCTYPE'' (content r)
               then (Some (content r), st')
               else create_sheet_loop env urls st'))"

definition create_sheet ::
  "'w env \<Rightarrow> str \<Rightarrow> str \<Rightarrow> 'w state \<Rightarrow> string option \<times> 'w state" where
  "create_sheet env spreadsheet_id sheet_id st =
     create_sheet_loop env
       [export_url spreadsheet_id sheet_id, gviz_url spreadsheet_id sheet_id] st"

text \<open>
  The \<open>for sheet_id in sheet_ids\<close> loop of \<open>create_spreadsheet\<close>, with the list \<open>files\<close>
  it appends to. A \<open>BytesIO\<close> object is always truthy, so \<open>not buffer\<close> is \<open>buffer is None\<close>.
\<close>

fun create_spreadsheet_loop ::
  "'w env \<Rightarrow> str \<Rightarrow> str list \<Rightarrow> (str \<times> string) list \<Rightarrow> 'w state
     \<Rightarrow> (str \<times> string) list \<times> 'w state" where
  "create_spreadsheet_loop env spreadsheet_id [] files st = (files, st)"
| "create_spreadsheet_loop env spreadsheet_id (sheet_id # sheet_ids) files st =
     (case create_sheet env spreadsheet_id sheet_id st of
        (None, st') \<Rightarrow>
          create_spreadsheet_loop env spreadsheet_id sheet_ids files
            (logging (Log_error (lit ''Failed to fetch sheet '' @ sheet_id @ lit '' for ''
               @ spreadsheet_id)) st')
      | (Some buffer, st') \<Rightarrow>
          create_spreadsheet_loop env spreadsheet_id sheet_ids
            (files @ [(sheet_id @ lit ''.csv'', buffer)])
            (logging (Log_info (lit ''Successfully fetched sheet '' @ sheet_id)) st'))"

definition create_spreadsheet ::
  "'w env \<Rightarrow> str \<Rightarrow> 'w state \<Rightarrow> (exc + (str \<times> string) list) \<times> 'w state" where
  "create_spreadsheet env spreadsheet_id st =
     (case get_sheet_ids env spreadsheet_id st of
        (sheet_ids, st1) \<Rightarrow>
          (case create_spreadsheet_loop env spreadsheet_id sheet_ids [] st1 of
             (files, st2) \<Rightarrow>
               if files = [] then (Inl (Exception ''No sheet could be fetched''), st2)
               else (Inr files, st2)))"

subsection \<open>Documents\<close>

definition mobilebasic_url :: "str \<Rightarrow> str" where
  "mobilebasic_url doc_id =
     lit ''https://docs.google.com/document/d/'' @ doc_id @ lit ''/mobilebasic''"

text \<open>
  The title chosen in \<open>create_document\<close>: the fallback unless \<open>soup\<close>, \<open>soup.title\<close> and
  \<open>soup.title.string\<close> are all truthy.
\<close>

definition document_title :: "str \<Rightarrow> tag option \<Rightarrow> str" where
  "document_title doc_id soup =
     (case soup of
        None \<Rightarrow> lit ''document_'' @ doc_id
      | Some s \<Rightarrow>
          (case tag_title s of
             None \<Rightarrow> lit ''document_'' @ doc_id
           | Some t \<Rightarrow>
               (case tag_string t of
                  None \<Rightarrow> lit ''document_'' @ doc_id
                | Some title \<Rightarrow>
                    if title = [] then lit ''document_'' @ doc_id else re_sub title)))"

text \<open>
  \<open>create_document\<close>: \<open>soup.find\<close>, \<open>outer.find\<close> and \<open>inner.prettify\<close> raise
  \<open>AttributeError\<close> on \<open>None\<close>; \<open>parse_html_string\<close> stands for the converter and the
  saving of its result into the buffer, which may raise.
\<close>

definition create_document ::
  "'w env \<Rightarrow> str \<Rightarrow> 'w state \<Rightarrow> (exc + str \<times> string) \<times> 'w state" where
  "create_document env doc_id st =
     (case fetch_html env (mobilebasic_url doc_id) st of
        (soup, st') \<Rightarrow>
          (let title = document_title doc_id soup in
           case soup of
             None \<Rightarrow> (Inl AttributeError, st')
           | Some s \<Rightarrow>
               (case find_div_class_doc s of
                  None \<Rightarrow> (Inl AttributeError, st')
                | Some outer \<Rightarrow>
                    (case find_div outer of
                       None \<Rightarrow> (Inl AttributeError, st')
                     | Some inner \<Rightarrow>
                         (case parse_html_string env (prettify inner) of
                            Inl e \<Rightarrow> (Inl e, st')
                          | Inr buffer \<Rightarrow> (Inr (title @ lit ''.docx'', buffer), st'))))))"

subsection \<open>The archive\<close>

text \<open>
  The zip file under construction: its entries (stored name, bytes) in the order written.

  \<open>ZipFile.writestr(name, data)\<close> cuts the name at the first NUL character
  (\<open>ZipInfo.__init__\<close>), raises \<open>IndexError\<close> on the empty name that may remain (the test
  \<open>filename[-1] == '/'\<close>), encodes the name (ASCII, else UTF-8, which raises
  \<open>UnicodeEncodeError\<close> on a surrogate) and packs its length into 16 bits, which raises
  \<open>struct.error\<close> above 65535 bytes. All this happens before anything is written, so a
  call that raises leaves the archive as it was. Otherwise the entry is appended, also
  when its name is already in the archive (a warning only). The path separator is \<open>/\<close>
  (POSIX), so no separator is replaced, and the clock is at or after 1980 (\<open>ZipInfo\<close>
  refuses an earlier date).
\<close>

type_synonym zip_file = "(str \<times> string) list"

definition zip_name :: "str \<Rightarrow> exc + str" where
  "zip_name path =
     (let filename = takeWhile (\<lambda>c. c \<noteq> Ch (CHR 0x00)) path in
      if filename = [] then Inl IndexError
      else if list_ex surrogate filename then Inl UnicodeEncodeError
      else if 65535 < sum_list (map utf8_size filename) then Inl StructError
      else Inr filename)"

definition writestr :: "zip_file \<Rightarrow> str \<Rightarrow> string \<Rightarrow> exc + zip_file" where
  "writestr zf path data =
     (case zip_name path of
        Inl e \<Rightarrow> Inl e
      | Inr filename \<Rightarrow> Inr (zf @ [(filename, data)]))"

text \<open>
  The loop \<open>for filename, buffer in create_spreadsheet(doc_id)\<close> of \<open>download\<close>: it stops
  at the first \<open>writestr\<close> that raises, with the entries written so far in the archive.
\<close>

fun download_csv_loop ::
  "str \<Rightarrow> (str \<times> string) list \<Rightarrow> zip_file \<Rightarrow> (exc + unit) \<times> zip_file" where
  "download_csv_loop dirname [] zf = (Inr (), zf)"
| "download_csv_loop dirname ((filename, buffer) # files) zf =
     (case writestr zf (dirname @ lit ''/'' @ filename) buffer of
        Inl e \<Rightarrow> (Inl e, zf)
      | Inr zf' \<Rightarrow> download_csv_loop dirname files zf')"

text \<open>The body of the \<open>try\<close> in \<open>download\<close>, for one \<open>doc_id\<close>.\<close>

definition download_try ::
  "'w env \<Rightarrow> str option \<Rightarrow> str \<Rightarrow> zip_file \<Rightarrow> 'w state
     \<Rightarrow> (exc + unit) \<times> zip_file \<times> 'w state" where
  "download_try env doc_type doc_id zf st =
     (if doc_type = Some (lit ''docx'') then
        (case create_document env doc_id st of
           (Inl e, st') \<Rightarrow> (Inl e, zf, st')
         | (Inr (filename, buffer), st') \<Rightarrow>
             (case writestr zf filename buffer of
                Inl e \<Rightarrow> (Inl e, zf, st')
              | Inr zf' \<Rightarrow> (Inr (), zf', st')))
      else if doc_type = Some (lit ''csv'') then
        (case get_spreadsheet_title env doc_id st of
           (Inl e, st1) \<Rightarrow> (Inl e, zf, st1)
         | (Inr dirname, st1) \<Rightarrow>
             (case create_spreadsheet env doc_id st1 of
                (Inl e, st2) \<Rightarrow> (Inl e, zf, st2)
              | (Inr files, st2) \<Rightarrow>
                  (case download_csv_loop dirname files zf of
                     (r, zf') \<Rightarrow> (r, zf', st2))))
      else (Inl (ValueError ''Invalid document type''), zf, st))"

text \<open>The \<open>for doc_id in doc_ids\<close> loop with its \<open>except Exception\<close> handler.\<close>

fun download_loop ::
  "'w env \<Rightarrow> str option \<Rightarrow> str list \<Rightarrow> zip_file \<Rightarrow> 'w state \<Rightarrow> zip_file \<times> 'w state" where
  "download_loop env doc_type [] zf st = (zf, st)"
| "download_loop env doc_type (doc_id # doc_ids) zf st =
     (case download_try env doc_type doc_id zf st of
        (Inr u, zf', st') \<Rightarrow> download_loop env doc_type doc_ids zf' st'
      | (Inl e, zf', st') \<Rightarrow>
          download_loop env doc_type doc_ids zf'
            (logging (Log_exception (lit ''Failed to process document ID: '' @ doc_id)) st'))"

text \<open>
  \<open>download\<close>: \<open>doc_type\<close> is \<open>form.get("doc_type")\<close> (\<open>None\<close> when the field is missing),
  \<open>doc_ids\<close> is \<open>form.getlist("doc_ids[]")\<close>; the result is the archive that is streamed.
\<close>

definition download ::
  "'w env \<Rightarrow> str option \<Rightarrow> str list \<Rightarrow> 'w state \<Rightarrow> zip_file \<times> 'w state" where
  "download env doc_type doc_ids st = download_loop env doc_type doc_ids [] st"

section \<open>Reference notions the properties are stated with\<close>

text \<open>The unique elements of a list in order of first appearance.\<close>

fun first_seen :: "'a list \<Rightarrow> 'a list" where
  "first_seen [] = []"
| "first_seen (x # xs) = x # first_seen (filter (\<lambda>y. y \<noteq> x) xs)"

text \<open>
  The body of a fetched export that counts as CSV: the response is present, its body is
  not empty and does not begin with \<open><!DOCTYPE\<close>.
\<close>

definition csv_body :: "response option \<Rightarrow> string option" where
  "csv_body response =
     (case response of
        None \<Rightarrow> None
      | Some r \<Rightarrow>
          if content r \<noteq> [] \<and> \<not> prefix ''<!DOCTYPE'' (content r) then Some (content r)
          else None)"

text \<open>The text of the page's title element, when there is one and it has a string.\<close>

definition page_title :: "tag \<Rightarrow> str option" where
  "page_title soup = (case tag_title soup of None \<Rightarrow> None | Some t \<Rightarrow> tag_string t)"

text \<open>
  The content root of a document page: the first nested \<open>div\<close> of the content container
  (the \<open>div\<close> of class \<open>doc\<close>), when both are there.
\<close>

definition content_root :: "tag \<Rightarrow> tag option" where
  "content_root soup =
     (case find_div_class_doc soup of None \<Rightarrow> None | Some outer \<Rightarrow> find_div outer)"

text \<open>
  What \<open>create_sheet\<close> returns for each tab of a list, in order. The network has a state,
  so each export starts in the state the one before it left (with the record that
  \<open>create_spreadsheet\<close> logs for it).
\<close>

fun tab_exports ::
  "'w env \<Rightarrow> str \<Rightarrow> str list \<Rightarrow> 'w state \<Rightarrow> (str \<times> string option) list" where
  "tab_exports env spreadsheet_id [] st = []"
| "tab_exports env spreadsheet_id (t # ts) st =
     (case create_sheet env spreadsheet_id t st of
        (None, st') \<Rightarrow>
          (t, None) # tab_exports env spreadsheet_id ts
            (logging (Log_error (lit ''Failed to fetch sheet '' @ t @ lit '' for ''
               @ spreadsheet_id)) st')
      | (Some b, st') \<Rightarrow>
          (t, Some b) # tab_exports env spreadsheet_id ts
            (logging (Log_info (lit ''Successfully fetched sheet '' @ t)) st'))"

text \<open>The files of the tabs whose export succeeded: \<open><tab_id>.csv\<close> with the exported bytes.\<close>

fun csv_files :: "(str \<times> string option) list \<Rightarrow> (str \<times> string) list" where
  "csv_files [] = []"
| "csv_files ((t, None) # xs) = csv_files xs"
| "csv_files ((t, Some b) # xs) = (t @ lit ''.csv'', b) # csv_files xs"

text \<open>
  What resolving one id gives: its name (the file name of the document, or the directory
  name of the spreadsheet) and the (path, bytes) pairs to be written, in order: the
  document under its file name, or the tabs of the spreadsheet under
  \<open><dirname>/<tab file name>\<close>; an exception when resolving the id raises or the type is
  neither \<open>docx\<close> nor \<open>csv\<close>.
\<close>

definition id_files ::
  "'w env \<Rightarrow> str option \<Rightarrow> str \<Rightarrow> 'w state
     \<Rightarrow> (exc + str \<times> (str \<times> string) list) \<times> 'w state" where
  "id_files env doc_type doc_id st =
     (if doc_type = Some (lit ''docx'') then
        (case create_document env doc_id st of
           (Inl e, st') \<Rightarrow> (Inl e, st')
         | (Inr (filename, buffer), st') \<Rightarrow> (Inr (filename, [(filename, buffer)]), st'))
      else if doc_type = Some (lit ''csv'') then
        (case get_spreadsheet_title env doc_id st of
           (Inl e, st1) \<Rightarrow> (Inl e, st1)
         | (Inr dirname, st1) \<Rightarrow>
             (case create_spreadsheet env doc_id st1 of
                (Inl e, st2) \<Rightarrow> (Inl e, st2)
              | (Inr files, st2) \<Rightarrow>
                  (Inr (dirname,
                        map (\<lambda>(filename, buffer). (dirname @ lit ''/'' @ filename, buffer)) files),
                   st2)))
      else (Inl (ValueError ''Invalid document type''), st))"

text \<open>
  Writing a list of (path, bytes) pairs in order: the entries that get into the archive
  are those before the first path that \<open>writestr\<close> refuses, each under the name \<open>zip_name\<close>
  gives it; \<open>write_error\<close> is the exception of that first refusal, if there is one.
\<close>

fun stored :: "(str \<times> string) list \<Rightarrow> zip_file" where
  "stored [] = []"
| "stored ((path, data) # files) =
     (case zip_name path of Inl e \<Rightarrow> [] | Inr filename \<Rightarrow> (filename, data) # stored files)"

fun write_error :: "(str \<times> string) list \<Rightarrow> exc option" where
  "write_error [] = None"
| "write_error ((path, data) # files) =
     (case zip_name path of Inl e \<Rightarrow> Some e | Inr filename \<Rightarrow> write_error files)"

text \<open>An id fails when resolving it raises or when writing one of its entries raises.\<close>

definition failed :: "exc + str \<times> (str \<times> string) list \<Rightarrow> bool" where
  "failed r = (case r of Inl e \<Rightarrow> True | Inr (name, files) \<Rightarrow> write_error files \<noteq> None)"

text \<open>
  What resolving gives for every id of a list, in order, each id starting in the state
  the one before it left (with the record that \<open>download\<close> logs for a failure).
\<close>

fun id_results ::
  "'w env \<Rightarrow> str option \<Rightarrow> str list \<Rightarrow> 'w state
     \<Rightarrow> (str \<times> (exc + str \<times> (str \<times> string) list)) list" where
  "id_results env doc_type [] st = []"
| "id_results env doc_type (i # ids) st =
     (case id_files env doc_type i st of
        (r, st') \<Rightarrow>
          (i, r) # id_results env doc_type ids
            (if failed r
             then logging (Log_exception (lit ''Failed to process document ID: '' @ i)) st'
             else st'))"

text \<open>The entries that get into the archive, and the names of the ids that were resolved.\<close>

fun archived :: "(str \<times> (exc + str \<times> (str \<times> string) list)) list \<Rightarrow> zip_file" where
  "archived [] = []"
| "archived ((i, Inl e) # rs) = archived rs"
| "archived ((i, Inr (name, files)) # rs) = stored files @ archived rs"

fun resolved_names :: "(str \<times> (exc + str \<times> (str \<times> string) list)) list \<Rightarrow> str list" where
  "resolved_names [] = []"
| "resolved_names ((i, Inl e) # rs) = resolved_names rs"
| "resolved_names ((i, Inr (name, files)) # rs) = name # resolved_names rs"

text \<open>
  The paths that belong to a resolved name: the name itself for a document, and
  \<open><name>/<file>\<close> with neither \<open>/\<close> nor NUL in \<open><file>\<close> for a spreadsheet.
\<close>

definition belongs :: "str option \<Rightarrow> str \<Rightarrow> str \<Rightarrow> bool" where
  "belongs doc_type name path =
     (if doc_type = Some (lit ''docx'') then path = name
      else (\<exists>f. path = name @ lit ''/'' @ f
                \<and> Ch CHR ''/'' \<notin> set f \<and> Ch (CHR 0x00) \<notin> set f))"

text \<open>A later state: the requests and the log of the earlier one, and what came after.\<close>

definition grows :: "'w state \<Rightarrow> 'w state \<Rightarrow> bool" where
  "grows st st' =
     (prefix (requested st) (requested st') \<and> prefix (logged st) (logged st'))"

section \<open>A concrete network, parser and converter\<close>

text \<open>
  Spreadsheet \<open>S1\<close> has the tabs 7 and 3: the direct export of tab 7 answers with a
  login page and its query-based export with CSV, both exports of tab 3 fail.
  Spreadsheet \<open>S2\<close> has an empty title element. Spreadsheet \<open>S4\<close> has a title of 65525
  characters and the tabs 1 and 1234567890, spreadsheet \<open>S5\<close> has a NUL character in its
  title and the tabs 1 and 2, and the tab ids on the page of spreadsheet \<open>S6\<close> are written
  with Arabic-Indic and fullwidth digits. Document \<open>D1\<close> is complete, \<open>D2\<close> has
  the content container without a nested element, \<open>D3\<close> has no title, \<open>D4\<close> has an
  empty title element and the content container without a nested element, \<open>D5\<close> is
  complete and its title sanitizes to the same name as that of \<open>D1\<close>. Every other URL is
  unreachable.
\<close>

definition long_title :: str where
  "long_title = replicate 65525 (Ch CHR ''a'')"

definition nul_title :: str where
  "nul_title = lit ''a'' @ [Ch (CHR 0x00)] @ lit ''b''"

definition page_S6 :: str where
  "page_S6 = lit ''gid='' @ [Uni 1377, Uni 1378] @ lit '' gid='' @ [Uni 65047] @ lit '' gid=5''"

definition demo_page :: "str \<Rightarrow> exc + response" where
  "demo_page url =
     (if url = htmlview_url (lit ''S1'') then
        Inr \<lparr>status_code = 200, content = ''<title>My Sheet / Q1.2024</title>'',
             text_of = lit ''<title>My Sheet / Q1.2024</title> gid=7 gid=3 gid=7 gid=3''\<rparr>
      else if url = export_url (lit ''S1'') (lit ''7'') then
        Inr \<lparr>status_code = 200, content = ''<!DOCTYPE html><p>Sign in</p>'',
             text_of = lit ''<!DOCTYPE html><p>Sign in</p>''\<rparr>
      else if url = gviz_url (lit ''S1'') (lit ''7'') then
        Inr \<lparr>status_code = 200, content = ''a,b'', text_of = lit ''a,b''\<rparr>
      else if url = export_url (lit ''S1'') (lit ''3'') then
        Inr \<lparr>status_code = 404, content = ''Not Found'', text_of = lit ''Not Found''\<rparr>
      else if url = gviz_url (lit ''S1'') (lit ''3'') then Inl (RequestError ''timeout'')
      else if url = htmlview_url (lit ''S2'') then
        Inr \<lparr>status_code = 200, content = ''<title></title>'',
             text_of = lit ''<title></title>''\<rparr>
      else if url = htmlview_url (lit ''S4'') then
        Inr \<lparr>status_code = 200, content = ''page S4'',
             text_of = lit ''page S4 gid=1 gid=1234567890''\<rparr>
      else if url = export_url (lit ''S4'') (lit ''1'') then
        Inr \<lparr>status_code = 200, content = ''x'', text_of = lit ''x''\<rparr>
      else if url = export_url (lit ''S4'') (lit ''1234567890'') then
        Inr \<lparr>status_code = 200, content = ''y'', text_of = lit ''y''\<rparr>
      else if url = htmlview_url (lit ''S5'') then
        Inr \<lparr>status_code = 200, content = ''page S5'',
             text_of = lit ''page S5 gid=1 gid=2''\<rparr>
      else if url = export_url (lit ''S5'') (lit ''1'') then
        Inr \<lparr>status_code = 200, content = ''p'', text_of = lit ''p''\<rparr>
      else if url = export_url (lit ''S5'') (lit ''2'') then
        Inr \<lparr>status_code = 200, content = ''q'', text_of = lit ''q''\<rparr>
      else if url = htmlview_url (lit ''S6'') then
        Inr \<lparr>status_code = 200, content = ''page S6'', text_of = page_S6\<rparr>
      else if url = mobilebasic_url (lit ''D1'') then
        Inr \<lparr>status_code = 200, content = ''page D1'', text_of = lit ''page D1''\<rparr>
      else if url = mobilebasic_url (lit ''D2'') then
        Inr \<lparr>status_code = 200, content = ''page D2'', text_of = lit ''page D2''\<rparr>
      else if url = mobilebasic_url (lit ''D3'') then
        Inr \<lparr>status_code = 200, content = ''page D3'', text_of = lit ''page D3''\<rparr>
      else if url = mobilebasic_url (lit ''D4'') then
        Inr \<lparr>status_code = 200, content = ''page D4'', text_of = lit ''page D4''\<rparr>
      else if url = mobilebasic_url (lit ''D5'') then
        Inr \<lparr>status_code = 200, content = ''page D5'', text_of = lit ''page D5''\<rparr>
      else Inl (RequestError ''connection refused''))"

definition leaf :: "str option \<Rightarrow> str \<Rightarrow> tag" where
  "leaf s html = Tag None s None None html"

definition demo_soup :: "str \<Rightarrow> tag" where
  "demo_soup html =
     (if html = lit ''<title>My Sheet / Q1.2024</title> gid=7 gid=3 gid=7 gid=3'' then
        Tag (Some (leaf (Some (lit ''My Sheet / Q1.2024'')) (lit ''<title>''))) None None None []
      else if html = lit ''<title></title>'' then
        Tag (Some (leaf None (lit ''<title>''))) None None None []
      else if html = lit ''page S4 gid=1 gid=1234567890'' then
        Tag (Some (leaf (Some long_title) (lit ''<title>''))) None None None []
      else if html = lit ''page S5 gid=1 gid=2'' then
        Tag (Some (leaf (Some nul_title) (lit ''<title>''))) None None None []
      else if html = lit ''page D1'' then
        Tag (Some (leaf (Some (lit ''Report 1.0'')) (lit ''<title>''))) None
          (Some (Tag None (Some (lit ''hello'')) None
             (Some (leaf (Some (lit ''hello'')) (lit ''<div>hello</div>'')))
             (lit ''<div class=doc>'')))
          None []
      else if html = lit ''page D2'' then
        Tag None None (Some (leaf None (lit ''<div class=doc>''))) None []
      else if html = lit ''page D3'' then
        Tag None None
          (Some (Tag None (Some (lit ''bye'')) None
             (Some (leaf (Some (lit ''bye'')) (lit ''<div>bye</div>'')))
             (lit ''<div class=doc>'')))
          None []
      else if html = lit ''page D4'' then
        Tag (Some (leaf None (lit ''<title>''))) None
          (Some (leaf None (lit ''<div class=doc>''))) None []
      else if html = lit ''page D5'' then
        Tag (Some (leaf (Some (lit ''Report/1 0'')) (lit ''<title>''))) None
          (Some (Tag None (Some (lit ''hi'')) None
             (Some (leaf (Some (lit ''hi'')) (lit ''<div>hi</div>'')))
             (lit ''<div class=doc>'')))
          None []
      else leaf None [])"

text \<open>The bytes of a string of code points below 256 (a question mark for any other).\<close>

fun latin1 :: "pychar \<Rightarrow> char" where
  "latin1 (Ch c) = c"
| "latin1 (Uni n) = CHR ''?''"

definition demo_env :: "unit env" where
  "demo_env =
     \<lparr>requests_get = (\<lambda>w url. (demo_page url, w)),
      BeautifulSoup = demo_soup,
      parse_html_string = (\<lambda>html. Inr (''docx of '' @ map latin1 html)),
      unicode_Nd = (\<lambda>n. 1632 \<le> n \<and> n \<le> 1641 \<or> 65296 \<le> n \<and> n \<le> 65305)\<rparr>"

definition st0 :: "unit state" where
  "st0 = \<lparr>world = (), requested = [], logged = []\<rparr>"

section \<open>Properties\<close>

subsection \<open>States only grow\<close>

lemma grows_refl: "grows st st"
  by (simp add: grows_def)

lemma grows_trans: "grows a b \<Longrightarrow> grows b c \<Longrightarrow> grows a c"
  by (auto simp: grows_def intro: prefix_order.trans)

lemma grows_logging: "grows st (logging e st)"
  by (simp add: grows_def logging_def)

lemma logging_mem: "e \<in> set (logged (logging e st))"
  by (simp add: logging_def)

lemma logging_requested: "requested (logging e st) = requested st"
  by (simp add: logging_def)

lemma grows_logged_mem: "grows st st' \<Longrightarrow> e \<in> set (logged st) \<Longrightarrow> e \<in> set (logged st')"
  by (auto simp: grows_def dest: set_mono_prefix)

lemma grows_requested_mem:
  "grows st st' \<Longrightarrow> u \<in> set (requested st) \<Longrightarrow> u \<in> set (requested st')"
  by (auto simp: grows_def dest: set_mono_prefix)

subsection \<open>\<open>fetch_url\<close> and \<open>fetch_html\<close>\<close>

lemma fetch_url_status:
  "fetch_url env url st = (Some r, st') \<Longrightarrow> status_code r = 200"
  by (auto simp: fetch_url_def fetch_url_try_def split: prod.splits sum.splits if_splits)

lemma fetch_url_truthy:
  "fetch_url env url st = (Some r, st') \<Longrightarrow> \<not> not_response (Some r)"
  by (drule fetch_url_status) (simp add: not_response_def ok_def)

lemma fetch_url_requested:
  "requested (snd (fetch_url env url st)) = requested st @ [url]"
  by (simp add: fetch_url_def fetch_url_try_def http_get_def logging_def
      split: prod.splits sum.splits)

lemma fetch_url_logged:
  "prefix (logged st) (logged (snd (fetch_url env url st)))"
  by (simp add: fetch_url_def fetch_url_try_def http_get_def logging_def
      split: prod.splits sum.splits)

lemma fetch_url_grows: "grows st (snd (fetch_url env url st))"
  by (simp add: grows_def fetch_url_requested fetch_url_logged)

lemma fetch_html_eq:
  "fetch_html env url st =
     (map_option (\<lambda>r. BeautifulSoup env (text_of r)) (fst (fetch_url env url st)),
      snd (fetch_url env url st))"
proof (cases "fetch_url env url st")
  case (Pair response st')
  show ?thesis
  proof (cases response)
    case None
    with Pair show ?thesis by (simp add: fetch_html_def)
  next
    case (Some r)
    with Pair have "\<not> not_response (Some r)" by (auto dest: fetch_url_truthy)
    with Pair Some show ?thesis by (simp add: fetch_html_def)
  qed
qed

text \<open>
  C7: \<open>fetch_url\<close> returns a response exactly when \<open>requests.get\<close> returned one whose
  status code is 200; a response with any other status and every exception raised by
  the request (network error, timeout) give \<open>None\<close>; whatever the body of the \<open>try\<close>
  raises is caught, logged and answered with \<open>None\<close>, so nothing is raised to the caller.
\<close>

theorem fetch_url_present_iff_200:
  "(fst (fetch_url env url st) = Some r \<longleftrightarrow>
      fst (requests_get env (world st) url) = Inr r \<and> status_code r = 200)
   \<and> (fst (fetch_url env url st) = None \<longleftrightarrow>
      (\<exists>e. fst (requests_get env (world st) url) = Inl e) \<or>
      (\<exists>r'. fst (requests_get env (world st) url) = Inr r' \<and> status_code r' \<noteq> 200))
   \<and> (\<forall>e. fst (fetch_url_try env url st) = Inl e \<longrightarrow>
         fetch_url env url st =
           (None, logging (Log_exception (lit ''Failed to fetch: '' @ url))
                    (snd (fetch_url_try env url st))))"
  by (cases "requests_get env (world st) url"; cases "fst (requests_get env (world st) url)")
     (auto simp: fetch_url_def fetch_url_try_def http_get_def)

theorem fetch_url_present_iff_200_witness:
  "fst (fetch_url demo_env (gviz_url (lit ''S1'') (lit ''7'')) st0)
     = Some \<lparr>status_code = 200, content = ''a,b'', text_of = lit ''a,b''\<rparr>
   \<and> fst (fetch_url demo_env (export_url (lit ''S1'') (lit ''3'')) st0) = None
   \<and> fetch_url demo_env (gviz_url (lit ''S1'') (lit ''3'')) st0
       = (None, \<lparr>world = (), requested = [gviz_url (lit ''S1'') (lit ''3'')],
                 logged = [Log_exception (lit ''Failed to fetch: '' @ gviz_url (lit ''S1'') (lit ''3''))]\<rparr>)"
  using fetch_url_present_iff_200 [of demo_env "gviz_url (lit ''S1'') (lit ''7'')" st0
      "\<lparr>status_code = 200, content = ''a,b'', text_of = lit ''a,b''\<rparr>"]
    fetch_url_present_iff_200 [of demo_env "export_url (lit ''S1'') (lit ''3'')" st0]
    fetch_url_present_iff_200 [of demo_env "gviz_url (lit ''S1'') (lit ''3'')" st0]
  by (simp add: demo_env_def demo_page_def st0_def htmlview_url_def export_url_def gviz_url_def
      fetch_url_try_def http_get_def logging_def)

subsection \<open>\<open>get_sheet_ids\<close>\<close>

lemma foldl_fromkeys:
  "foldl (\<lambda>d k. if k \<in> set d then d else d @ [k]) acc xs
     = acc @ first_seen (filter (\<lambda>x. x \<notin> set acc) xs)"
proof (induction xs arbitrary: acc)
  case Nil
  show ?case by simp
next
  case (Cons x xs)
  have "filter (\<lambda>y. y \<noteq> x) (filter (\<lambda>y. y \<notin> set acc) xs)
          = filter (\<lambda>y. y \<notin> set (acc @ [x])) xs"
    by (induction xs) auto
  with Cons show ?case by simp
qed

lemma dict_fromkeys_first_seen: "dict_fromkeys xs = first_seen xs"
  by (simp add: dict_fromkeys_def foldl_fromkeys)

lemma set_first_seen: "set (first_seen xs) = set xs"
  by (induction xs rule: first_seen.induct) auto

lemma distinct_first_seen: "distinct (first_seen xs)"
  by (induction xs rule: first_seen.induct) (auto simp: set_first_seen)

lemma first_seen_two:
  assumes "xs \<noteq> []" "hd xs = a" "set xs = {a, b}" "a \<noteq> b"
  shows "first_seen xs = [a, b]"
proof -
  from assms obtain ys where xs: "xs = a # ys" by (cases xs) auto
  let ?zs = "filter (\<lambda>y. y \<noteq> a) ys"
  from assms xs have sz: "set ?zs = {b}" by auto
  then obtain zs' where zs: "?zs = b # zs'"
    by (cases ?zs) auto
  with sz have "filter (\<lambda>y. y \<noteq> b) zs' = []"
    by (auto simp: filter_empty_conv)
  with xs zs show ?thesis by simp
qed

lemma dropWhile_stops: "dropWhile P xs = [] \<or> \<not> P (hd (dropWhile P xs))"
  by (induction xs) auto

lemma findall_gid_sound:
  "m \<in> set (findall_gid nd s) \<Longrightarrow>
     m \<noteq> [] \<and> (\<forall>c\<in>set m. is_digit nd c)
     \<and> (\<exists>pre suf. s = pre @ lit ''gid='' @ m @ suf
            \<and> (suf = [] \<or> \<not> is_digit nd (hd suf)))"
proof (induction nd s rule: findall_gid.induct)
  case (1 nd)
  then show ?case by simp
next
  case (2 nd c cs)
  define ds where "ds = takeWhile (is_digit nd) (drop 4 (c # cs))"
  define rest where "rest = dropWhile (is_digit nd) (drop 4 (c # cs))"
  have split: "drop 4 (c # cs) = ds @ rest"
    unfolding ds_def rest_def by (simp only: takeWhile_dropWhile_id)
  have stop: "rest = [] \<or> \<not> is_digit nd (hd rest)"
    unfolding rest_def by (rule dropWhile_stops)
  have digits: "\<forall>c\<in>set ds. is_digit nd c"
    unfolding ds_def by (auto dest: set_takeWhileD)
  show ?case
  proof (cases "prefix (lit ''gid='') (c # cs) \<and> ds \<noteq> []")
    case True
    then obtain zs where zs: "c # cs = lit ''gid='' @ zs"
      by (auto elim: prefixE)
    then have "drop 4 (c # cs) = zs"
      by (simp only: drop_append) simp
    with zs split have s: "c # cs = lit ''gid='' @ ds @ rest"
      by (simp only:)
    from True "2.prems" have "m = ds \<or> m \<in> set (findall_gid nd rest)"
      unfolding ds_def rest_def by (simp del: drop_Cons_numeral)
    then show ?thesis
    proof
      assume "m = ds"
      with True digits stop s have "m \<noteq> []" "\<forall>c\<in>set m. is_digit nd c"
        "c # cs = [] @ lit ''gid='' @ m @ rest" "rest = [] \<or> \<not> is_digit nd (hd rest)"
        by (simp_all only: append_Nil not_False_eq_True)
      then show ?thesis by blast
    next
      assume "m \<in> set (findall_gid nd rest)"
      with "2.IH"(1) True obtain pre suf where m: "m \<noteq> []" "\<forall>c\<in>set m. is_digit nd c"
        and r: "rest = pre @ lit ''gid='' @ m @ suf" and e: "suf = [] \<or> \<not> is_digit nd (hd suf)"
        unfolding ds_def rest_def by blast
      have "c # cs = lit ''gid='' @ ds @ rest" by (rule s)
      also have "\<dots> = lit ''gid='' @ ds @ pre @ lit ''gid='' @ m @ suf"
        by (simp only: r)
      also have "\<dots> = (lit ''gid='' @ ds @ pre) @ lit ''gid='' @ m @ suf"
        by (simp only: append_assoc)
      finally show ?thesis using m e by blast
    qed
  next
    case False
    with "2.prems" have "m \<in> set (findall_gid nd cs)"
      unfolding ds_def by (simp del: drop_Cons_numeral split: if_splits)
    with "2.IH"(2) False obtain pre suf where m: "m \<noteq> []" "\<forall>c\<in>set m. is_digit nd c"
      and r: "cs = pre @ lit ''gid='' @ m @ suf" and e: "suf = [] \<or> \<not> is_digit nd (hd suf)"
      unfolding ds_def by blast
    have "c # cs = (c # pre) @ lit ''gid='' @ m @ suf"
      by (simp only: r append_Cons)
    with m e show ?thesis by blast
  qed
qed

lemma get_sheet_ids_eq:
  "get_sheet_ids env sid st =
     (case fetch_url env (htmlview_url sid) st of
        (None, st') \<Rightarrow> ([lit ''0''], st')
      | (Some r, st') \<Rightarrow>
          (if findall_gid (unicode_Nd env) (text_of r) = [] then [lit ''0'']
           else first_seen (findall_gid (unicode_Nd env) (text_of r)), st'))"
proof (cases "fetch_url env (htmlview_url sid) st")
  case (Pair response st')
  show ?thesis
  proof (cases response)
    case None
    with Pair show ?thesis by (simp add: get_sheet_ids_def)
  next
    case (Some r)
    with Pair have "\<not> not_response (Some r)" by (auto dest: fetch_url_truthy)
    with Pair Some show ?thesis
      by (simp add: get_sheet_ids_def dict_fromkeys_first_seen Let_def)
  qed
qed

lemma get_sheet_ids_snd: "snd (get_sheet_ids env sid st) = snd (fetch_url env (htmlview_url sid) st)"
  by (simp add: get_sheet_ids_eq split: prod.splits option.splits)

lemma get_sheet_ids_distinct: "distinct (fst (get_sheet_ids env sid st))"
  by (simp add: get_sheet_ids_eq distinct_first_seen split: prod.splits option.splits)

text \<open>
  C5: \<open>get_sheet_ids\<close> returns \<open>["0"]\<close> when the fetch of the preview page fails;
  otherwise it returns the \<open>gid=<digits>\<close> matches of the page text (the digits being the
  Unicode decimal digits that \<open>\d\<close> matches), each once, in order of first appearance,
  and \<open>["0"]\<close> when there is no match. The result never repeats an id and, when there
  are matches, has exactly the matched ids. A text whose matches are 7 and 3 only, 7
  first, gives \<open>["7", "3"]\<close>.
\<close>

theorem get_sheet_ids_first_seen:
  "fst (get_sheet_ids env sid st) =
     (case fst (fetch_url env (htmlview_url sid) st) of
        None \<Rightarrow> [lit ''0'']
      | Some r \<Rightarrow>
          if findall_gid (unicode_Nd env) (text_of r) = [] then [lit ''0'']
          else first_seen (findall_gid (unicode_Nd env) (text_of r)))
   \<and> distinct (fst (get_sheet_ids env sid st))
   \<and> (\<forall>r. fst (fetch_url env (htmlview_url sid) st) = Some r
          \<and> findall_gid (unicode_Nd env) (text_of r) \<noteq> []
        \<longrightarrow> set (fst (get_sheet_ids env sid st))
              = set (findall_gid (unicode_Nd env) (text_of r)))
   \<and> (\<forall>r. fst (fetch_url env (htmlview_url sid) st) = Some r
          \<and> findall_gid (unicode_Nd env) (text_of r) \<noteq> []
          \<and> hd (findall_gid (unicode_Nd env) (text_of r)) = lit ''7''
          \<and> set (findall_gid (unicode_Nd env) (text_of r)) = {lit ''7'', lit ''3''}
        \<longrightarrow> fst (get_sheet_ids env sid st) = [lit ''7'', lit ''3''])"
proof -
  let ?ms = "\<lambda>r. findall_gid (unicode_Nd env) (text_of r)"
  have main: "fst (get_sheet_ids env sid st) =
     (case fst (fetch_url env (htmlview_url sid) st) of
        None \<Rightarrow> [lit ''0'']
      | Some r \<Rightarrow> if ?ms r = [] then [lit ''0''] else first_seen (?ms r))"
    by (cases "fetch_url env (htmlview_url sid) st";
        cases "fst (fetch_url env (htmlview_url sid) st)")
       (simp_all add: get_sheet_ids_eq)
  have two: "fst (get_sheet_ids env sid st) = [lit ''7'', lit ''3'']"
    if "fst (fetch_url env (htmlview_url sid) st) = Some r"
      and "?ms r \<noteq> []" and "hd (?ms r) = lit ''7''"
      and "set (?ms r) = {lit ''7'', lit ''3''}" for r
    using that main by (simp add: first_seen_two)
  have same: "set (fst (get_sheet_ids env sid st)) = set (?ms r)"
    if "fst (fetch_url env (htmlview_url sid) st) = Some r" and "?ms r \<noteq> []" for r
    using that main by (simp add: set_first_seen)
  have none: "distinct (fst (get_sheet_ids env sid st))"
    by (rule get_sheet_ids_distinct)
  from two same have
    "\<forall>r. fst (fetch_url env (htmlview_url sid) st) = Some r \<and> ?ms r \<noteq> []
        \<longrightarrow> set (fst (get_sheet_ids env sid st)) = set (?ms r)"
    "\<forall>r. fst (fetch_url env (htmlview_url sid) st) = Some r
          \<and> ?ms r \<noteq> [] \<and> hd (?ms r) = lit ''7'' \<and> set (?ms r) = {lit ''7'', lit ''3''}
        \<longrightarrow> fst (get_sheet_ids env sid st) = [lit ''7'', lit ''3'']"
    by blast+
  with main none show ?thesis
    by (intro conjI)
qed

theorem get_sheet_ids_first_seen_witness:
  "fst (fetch_url demo_env (htmlview_url (lit ''S1'')) st0) \<noteq> None
   \<and> findall_gid (unicode_Nd demo_env)
        (lit ''<title>My Sheet / Q1.2024</title> gid=7 gid=3 gid=7 gid=3'')
        = [lit ''7'', lit ''3'', lit ''7'', lit ''3'']
   \<and> fst (get_sheet_ids demo_env (lit ''S1'') st0) = [lit ''7'', lit ''3'']
   \<and> findall_gid (unicode_Nd demo_env) page_S6 = [[Uni 1377, Uni 1378], [Uni 65047], lit ''5'']
   \<and> fst (get_sheet_ids demo_env (lit ''S6'') st0)
       = [[Uni 1377, Uni 1378], [Uni 65047], lit ''5'']
   \<and> fst (fetch_url demo_env (htmlview_url (lit ''S3'')) st0) = None
   \<and> fst (get_sheet_ids demo_env (lit ''S3'') st0) = [lit ''0'']"
  using get_sheet_ids_first_seen [of demo_env "lit ''S1''" st0]
    get_sheet_ids_first_seen [of demo_env "lit ''S6''" st0]
    get_sheet_ids_first_seen [of demo_env "lit ''S3''" st0]
  by (simp add: demo_env_def demo_page_def st0_def htmlview_url_def export_url_def gviz_url_def
      mobilebasic_url_def fetch_url_def fetch_url_try_def http_get_def logging_def page_S6_def)

subsection \<open>\<open>create_sheet\<close>\<close>

lemma create_sheet_loop_step:
  "create_sheet_loop env (url # urls) st =
     (case fetch_url env url st of
        (r, st') \<Rightarrow>
          (case csv_body r of
             Some b \<Rightarrow> (Some b, st')
           | None \<Rightarrow> create_sheet_loop env urls st'))"
proof (cases "fetch_url env url st")
  case (Pair response st')
  show ?thesis
  proof (cases response)
    case None
    with Pair show ?thesis by (simp add: csv_body_def)
  next
    case (Some r)
    with Pair have "\<not> not_response (Some r)" by (auto dest: fetch_url_truthy)
    with Pair Some show ?thesis by (simp add: csv_body_def)
  qed
qed

lemma csv_body_Some:
  "csv_body r = Some b \<Longrightarrow> b \<noteq> [] \<and> \<not> prefix ''<!DOCTYPE'' b"
  by (auto simp: csv_body_def split: option.splits if_splits)

lemma create_sheet_eq:
  "create_sheet env sid tid st =
     (case fetch_url env (export_url sid tid) st of
        (r1, st1) \<Rightarrow>
          (case csv_body r1 of
             Some b \<Rightarrow> (Some b, st1)
           | None \<Rightarrow>
               (case fetch_url env (gviz_url sid tid) st1 of (r2, st2) \<Rightarrow> (csv_body r2, st2))))"
  unfolding create_sheet_def create_sheet_loop_step
  by (simp split: prod.splits option.splits)

lemma create_sheet_grows: "grows st (snd (create_sheet env sid tid st))"
proof -
  obtain r1 st1 where f1: "fetch_url env (export_url sid tid) st = (r1, st1)"
    by (cases "fetch_url env (export_url sid tid) st")
  obtain r2 st2 where f2: "fetch_url env (gviz_url sid tid) st1 = (r2, st2)"
    by (cases "fetch_url env (gviz_url sid tid) st1")
  have p1: "grows st st1"
    using fetch_url_grows [of st env "export_url sid tid"] f1 by simp
  have p2: "grows st1 st2"
    using fetch_url_grows [of st1 env "gviz_url sid tid"] f2 by simp
  from p1 p2 have "grows st st2" by (rule grows_trans)
  with p1 f1 f2 show ?thesis
    by (simp add: create_sheet_eq split: option.splits)
qed

lemma create_sheet_requested:
  "prefix (requested st @ [export_url sid tid]) (requested (snd (create_sheet env sid tid st)))"
proof -
  obtain r1 st1 where f1: "fetch_url env (export_url sid tid) st = (r1, st1)"
    by (cases "fetch_url env (export_url sid tid) st")
  obtain r2 st2 where f2: "fetch_url env (gviz_url sid tid) st1 = (r2, st2)"
    by (cases "fetch_url env (gviz_url sid tid) st1")
  have p1: "requested st1 = requested st @ [export_url sid tid]"
    using fetch_url_requested [of env "export_url sid tid" st] f1 by simp
  have p2: "requested st2 = requested st1 @ [gviz_url sid tid]"
    using fetch_url_requested [of env "gviz_url sid tid" st1] f2 by simp
  from p1 p2 f1 f2 show ?thesis
    by (simp add: create_sheet_eq split: option.splits)
qed

text \<open>
  C4: \<open>create_sheet\<close> fetches the direct CSV export URL first and returns its body when
  the response is present, not empty and does not begin with \<open><!DOCTYPE\<close>; only
  otherwise it fetches the query-based (gviz) URL and returns that body under the same
  conditions, else \<open>None\<close>. A body that begins with \<open><!DOCTYPE\<close> is not returned, whatever
  the status, and what is returned is never empty and never begins with \<open><!DOCTYPE\<close>.
\<close>

theorem create_sheet_two_urls:
  "create_sheet env sid tid st =
     (case fetch_url env (export_url sid tid) st of
        (r1, st1) \<Rightarrow>
          (case csv_body r1 of
             Some b \<Rightarrow> (Some b, st1)
           | None \<Rightarrow>
               (case fetch_url env (gviz_url sid tid) st1 of (r2, st2) \<Rightarrow> (csv_body r2, st2))))
   \<and> (\<forall>r. prefix ''<!DOCTYPE'' (content r) \<longrightarrow> csv_body (Some r) = None)
   \<and> (\<forall>b. fst (create_sheet env sid tid st) = Some b \<longrightarrow> b \<noteq> [] \<and> \<not> prefix ''<!DOCTYPE'' b)"
proof (intro conjI allI impI)
  show "create_sheet env sid tid st =
     (case fetch_url env (export_url sid tid) st of
        (r1, st1) \<Rightarrow>
          (case csv_body r1 of
             Some b \<Rightarrow> (Some b, st1)
           | None \<Rightarrow>
               (case fetch_url env (gviz_url sid tid) st1 of (r2, st2) \<Rightarrow> (csv_body r2, st2))))"
    by (rule create_sheet_eq)
next
  fix r :: response
  assume "prefix ''<!DOCTYPE'' (content r)"
  then show "csv_body (Some r) = None" by (simp add: csv_body_def)
next
  fix b
  assume "fst (create_sheet env sid tid st) = Some b"
  then have "\<exists>r. csv_body r = Some b"
    by (auto simp: create_sheet_eq split: prod.splits option.splits)
  then show "b \<noteq> []" by (auto dest: csv_body_Some)
next
  fix b
  assume "fst (create_sheet env sid tid st) = Some b"
  then have "\<exists>r. csv_body r = Some b"
    by (auto simp: create_sheet_eq split: prod.splits option.splits)
  then show "\<not> prefix ''<!DOCTYPE'' b" by (auto dest: csv_body_Some)
qed

theorem create_sheet_two_urls_witness:
  "prefix ''<!DOCTYPE'' (content \<lparr>status_code = 200, content = ''<!DOCTYPE html><p>Sign in</p>'',
             text_of = lit ''<!DOCTYPE html><p>Sign in</p>''\<rparr>)
   \<and> fst (fetch_url demo_env (export_url (lit ''S1'') (lit ''7'')) st0)
       = Some \<lparr>status_code = 200, content = ''<!DOCTYPE html><p>Sign in</p>'',
             text_of = lit ''<!DOCTYPE html><p>Sign in</p>''\<rparr>
   \<and> fst (create_sheet demo_env (lit ''S1'') (lit ''7'') st0) = Some ''a,b''
   \<and> requested (snd (create_sheet demo_env (lit ''S1'') (lit ''7'') st0))
       = [export_url (lit ''S1'') (lit ''7''), gviz_url (lit ''S1'') (lit ''7'')]
   \<and> fst (create_sheet demo_env (lit ''S1'') (lit ''3'') st0) = None"
  using create_sheet_two_urls [of demo_env "(lit ''S1'')" "(lit ''7'')" st0]
    create_sheet_two_urls [of demo_env "(lit ''S1'')" "(lit ''3'')" st0]
  by (simp add: demo_env_def demo_page_def st0_def htmlview_url_def export_url_def gviz_url_def
      mobilebasic_url_def fetch_url_def fetch_url_try_def http_get_def logging_def csv_body_def)

subsection \<open>\<open>create_spreadsheet\<close>\<close>

lemma create_spreadsheet_loop_grows:
  "grows st (snd (create_spreadsheet_loop env sid tabs files st))"
proof (induction tabs arbitrary: files st)
  case Nil
  show ?case by (simp add: grows_refl)
next
  case (Cons t ts)
  obtain b st' where c: "create_sheet env sid t st = (b, st')"
    by (cases "create_sheet env sid t st")
  have p: "grows st st'"
    using create_sheet_grows [of st env sid t] c by simp
  show ?case
  proof (cases b)
    case None
    let ?st = "logging (Log_error (lit ''Failed to fetch sheet '' @ t @ lit '' for '' @ sid)) st'"
    have "grows st ?st"
      using p grows_logging by (rule grows_trans)
    moreover have "grows ?st (snd (create_spreadsheet_loop env sid ts files ?st))"
      by (rule Cons.IH)
    ultimately have "grows st (snd (create_spreadsheet_loop env sid ts files ?st))"
      by (rule grows_trans)
    then show ?thesis using c None by simp
  next
    case (Some buf)
    let ?st = "logging (Log_info (lit ''Successfully fetched sheet '' @ t)) st'"
    have "grows st ?st"
      using p grows_logging by (rule grows_trans)
    moreover have "grows ?st
        (snd (create_spreadsheet_loop env sid ts (files @ [(t @ lit ''.csv'', buf)]) ?st))"
      by (rule Cons.IH)
    ultimately have "grows st
        (snd (create_spreadsheet_loop env sid ts (files @ [(t @ lit ''.csv'', buf)]) ?st))"
      by (rule grows_trans)
    then show ?thesis using c Some by simp
  qed
qed

lemma create_spreadsheet_loop_files:
  "fst (create_spreadsheet_loop env sid tabs files st)
     = files @ csv_files (tab_exports env sid tabs st)"
proof (induction tabs arbitrary: files st)
  case Nil
  show ?case by simp
next
  case (Cons t ts)
  show ?case
    by (cases "create_sheet env sid t st"; cases "fst (create_sheet env sid t st)")
       (simp_all add: Cons.IH)
qed

lemma create_spreadsheet_loop_errors:
  "(t, None) \<in> set (tab_exports env sid tabs st) \<Longrightarrow>
     Log_error (lit ''Failed to fetch sheet '' @ t @ lit '' for '' @ sid)
       \<in> set (logged (snd (create_spreadsheet_loop env sid tabs files st)))"
proof (induction tabs arbitrary: files st)
  case Nil
  then show ?case by simp
next
  case (Cons u us)
  obtain b st' where c: "create_sheet env sid u st = (b, st')"
    by (cases "create_sheet env sid u st")
  show ?case
  proof (cases b)
    case None
    let ?st = "logging (Log_error (lit ''Failed to fetch sheet '' @ u @ lit '' for '' @ sid)) st'"
    from Cons.prems c None
    consider "t = u" | "(t, None) \<in> set (tab_exports env sid us ?st)"
      by auto
    then show ?thesis
    proof cases
      case 1
      have "Log_error (lit ''Failed to fetch sheet '' @ u @ lit '' for '' @ sid)
          \<in> set (logged (snd (create_spreadsheet_loop env sid us files ?st)))"
        by (rule grows_logged_mem [OF create_spreadsheet_loop_grows logging_mem])
      then show ?thesis using 1 c None by simp
    next
      case 2
      then have "Log_error (lit ''Failed to fetch sheet '' @ t @ lit '' for '' @ sid)
          \<in> set (logged (snd (create_spreadsheet_loop env sid us files ?st)))"
        by (rule Cons.IH)
      then show ?thesis using c None by simp
    qed
  next
    case (Some buf)
    with Cons.prems c
    have "(t, None) \<in> set (tab_exports env sid us
             (logging (Log_info (lit ''Successfully fetched sheet '' @ u)) st'))"
      by auto
    then have "Log_error (lit ''Failed to fetch sheet '' @ t @ lit '' for '' @ sid)
        \<in> set (logged (snd (create_spreadsheet_loop env sid us (files @ [(u @ lit ''.csv'', buf)])
             (logging (Log_info (lit ''Successfully fetched sheet '' @ u)) st'))))"
      by (rule Cons.IH)
    then show ?thesis using c Some by simp
  qed
qed

lemma map_fst_tab_exports: "map fst (tab_exports env sid tabs st) = tabs"
  by (induction tabs arbitrary: st) (auto split: prod.splits option.splits)

lemma csv_files_empty_iff: "csv_files xs = [] \<longleftrightarrow> (\<forall>x\<in>set xs. snd x = None)"
  by (induction xs rule: csv_files.induct) auto

lemma create_spreadsheet_eq:
  "get_sheet_ids env sid st = (tabs, st1) \<Longrightarrow>
   fst (create_spreadsheet env sid st) =
     (if csv_files (tab_exports env sid tabs st1) = []
      then Inl (Exception ''No sheet could be fetched'')
      else Inr (csv_files (tab_exports env sid tabs st1)))"
  using create_spreadsheet_loop_files [of env sid tabs "[]" st1]
  by (cases "create_spreadsheet_loop env sid tabs [] st1") (auto simp: create_spreadsheet_def)

lemma create_spreadsheet_snd:
  "get_sheet_ids env sid st = (tabs, st1) \<Longrightarrow>
   snd (create_spreadsheet env sid st) = snd (create_spreadsheet_loop env sid tabs [] st1)"
  by (simp add: create_spreadsheet_def split: prod.splits)

lemma create_spreadsheet_grows: "grows st (snd (create_spreadsheet env sid st))"
proof -
  obtain tabs st1 where g: "get_sheet_ids env sid st = (tabs, st1)"
    by (cases "get_sheet_ids env sid st")
  have "grows st st1"
    using fetch_url_grows [of st env "htmlview_url sid"] get_sheet_ids_snd [of env sid st] g
    by simp
  moreover have "grows st1 (snd (create_spreadsheet_loop env sid tabs [] st1))"
    by (rule create_spreadsheet_loop_grows)
  ultimately show ?thesis
    using create_spreadsheet_snd [OF g] by (auto intro: grows_trans)
qed

lemma fst_csv_files_subset:
  "fst ` set (csv_files xs) \<subseteq> (\<lambda>t. t @ lit ''.csv'') ` fst ` set xs"
  by (induction xs rule: csv_files.induct) auto

lemma distinct_csv_files:
  "distinct (map fst xs) \<Longrightarrow> distinct (map fst (csv_files xs))"
proof (induction xs rule: csv_files.induct)
  case 1
  show ?case by simp
next
  case (2 t xs)
  then show ?case by simp
next
  case (3 t b xs)
  have "t @ lit ''.csv'' \<notin> fst ` set (csv_files xs)"
  proof
    assume "t @ lit ''.csv'' \<in> fst ` set (csv_files xs)"
    with fst_csv_files_subset [of xs] have "t @ lit ''.csv'' \<in> (\<lambda>t. t @ lit ''.csv'') ` fst ` set xs"
      by blast
    then have "t \<in> fst ` set xs" by auto
    with 3 show False by simp
  qed
  with 3 show ?case by simp
qed

lemma create_spreadsheet_distinct:
  "fst (create_spreadsheet env sid st) = Inr files \<Longrightarrow> distinct (map fst files)"
proof -
  assume a: "fst (create_spreadsheet env sid st) = Inr files"
  obtain tabs st1 where g: "get_sheet_ids env sid st = (tabs, st1)"
    by (cases "get_sheet_ids env sid st")
  have "distinct tabs"
    using get_sheet_ids_distinct [of env sid st] g by simp
  then have "distinct (map fst (tab_exports env sid tabs st1))"
    by (simp add: map_fst_tab_exports)
  then have "distinct (map fst (csv_files (tab_exports env sid tabs st1)))"
    by (rule distinct_csv_files)
  moreover have "files = csv_files (tab_exports env sid tabs st1)"
    using a create_spreadsheet_eq [OF g] by (simp split: if_splits)
  ultimately show ?thesis by simp
qed

text \<open>
  C3: \<open>create_spreadsheet\<close> exports every discovered tab, in the order \<open>get_sheet_ids\<close>
  gave them; it returns the successful exports in that order, each named
  \<open><tab_id>.csv\<close>; for a tab whose export fails it logs an error and goes on with the
  next tab; it raises "No sheet could be fetched" exactly when no tab was exported.
\<close>

theorem create_spreadsheet_tabs:
  assumes "get_sheet_ids env sid st = (tabs, st1)"
  shows "map fst (tab_exports env sid tabs st1) = tabs
    \<and> fst (create_spreadsheet env sid st) =
        (if \<forall>x\<in>set (tab_exports env sid tabs st1). snd x = None
         then Inl (Exception ''No sheet could be fetched'')
         else Inr (csv_files (tab_exports env sid tabs st1)))
    \<and> (\<forall>t. (t, None) \<in> set (tab_exports env sid tabs st1) \<longrightarrow>
          Log_error (lit ''Failed to fetch sheet '' @ t @ lit '' for '' @ sid)
            \<in> set (logged (snd (create_spreadsheet env sid st))))"
proof (intro conjI allI impI)
  show "map fst (tab_exports env sid tabs st1) = tabs"
    by (rule map_fst_tab_exports)
next
  show "fst (create_spreadsheet env sid st) =
        (if \<forall>x\<in>set (tab_exports env sid tabs st1). snd x = None
         then Inl (Exception ''No sheet could be fetched'')
         else Inr (csv_files (tab_exports env sid tabs st1)))"
    using create_spreadsheet_eq [OF assms] by (simp add: csv_files_empty_iff)
next
  fix t
  assume "(t, None) \<in> set (tab_exports env sid tabs st1)"
  then have "Log_error (lit ''Failed to fetch sheet '' @ t @ lit '' for '' @ sid)
            \<in> set (logged (snd (create_spreadsheet_loop env sid tabs [] st1)))"
    by (rule create_spreadsheet_loop_errors)
  then show "Log_error (lit ''Failed to fetch sheet '' @ t @ lit '' for '' @ sid)
            \<in> set (logged (snd (create_spreadsheet env sid st)))"
    using create_spreadsheet_snd [OF assms] by simp
qed

theorem create_spreadsheet_tabs_witness:
  "get_sheet_ids demo_env (lit ''S1'') st0
     = ([lit ''7'', lit ''3''],
        \<lparr>world = (), requested = [htmlview_url (lit ''S1'')], logged = []\<rparr>)
   \<and> map fst (tab_exports demo_env (lit ''S1'') [lit ''7'', lit ''3'']
        \<lparr>world = (), requested = [htmlview_url (lit ''S1'')], logged = []\<rparr>)
       = [lit ''7'', lit ''3'']
   \<and> map snd (tab_exports demo_env (lit ''S1'') [lit ''7'', lit ''3'']
        \<lparr>world = (), requested = [htmlview_url (lit ''S1'')], logged = []\<rparr>)
       = [Some ''a,b'', None]
   \<and> fst (create_spreadsheet demo_env (lit ''S1'') st0) = Inr [(lit ''7.csv'', ''a,b'')]
   \<and> Log_error (lit ''Failed to fetch sheet 3 for S1'')
        \<in> set (logged (snd (create_spreadsheet demo_env (lit ''S1'') st0)))
   \<and> fst (create_spreadsheet demo_env (lit ''S3'') st0)
       = Inl (Exception ''No sheet could be fetched'')"
proof -
  let ?st1 = "\<lparr>world = (), requested = [htmlview_url (lit ''S1'')], logged = []\<rparr>"
  let ?st3 = "\<lparr>world = (), requested = [htmlview_url (lit ''S3'')],
          logged = [Log_exception (lit ''Failed to fetch: '' @ htmlview_url (lit ''S3''))]\<rparr>"
  have g: "get_sheet_ids demo_env (lit ''S1'') st0 = ([lit ''7'', lit ''3''], ?st1)"
    by (simp add: get_sheet_ids_def demo_env_def demo_page_def st0_def htmlview_url_def
        fetch_url_def fetch_url_try_def http_get_def not_response_def ok_def
        dict_fromkeys_def)
  have e: "tab_exports demo_env (lit ''S1'') [lit ''7'', lit ''3''] ?st1
      = [(lit ''7'', Some ''a,b''), (lit ''3'', None)]"
    by (simp add: create_sheet_def demo_env_def demo_page_def htmlview_url_def export_url_def
        gviz_url_def fetch_url_def fetch_url_try_def http_get_def not_response_def ok_def
        logging_def)
  have g3: "get_sheet_ids demo_env (lit ''S3'') st0 = ([lit ''0''], ?st3)"
    by (simp add: get_sheet_ids_def demo_env_def demo_page_def st0_def htmlview_url_def
        export_url_def gviz_url_def mobilebasic_url_def
        fetch_url_def fetch_url_try_def http_get_def not_response_def ok_def logging_def)
  have e3: "tab_exports demo_env (lit ''S3'') [lit ''0''] ?st3 = [(lit ''0'', None)]"
    by (simp add: create_sheet_def demo_env_def demo_page_def htmlview_url_def export_url_def
        gviz_url_def mobilebasic_url_def fetch_url_def fetch_url_try_def http_get_def
        not_response_def ok_def logging_def)
  note t1 = create_spreadsheet_tabs [OF g, unfolded e]
  note t3 = create_spreadsheet_tabs [OF g3, unfolded e3]
  have a: "map fst (tab_exports demo_env (lit ''S1'') [lit ''7'', lit ''3''] ?st1)
      = [lit ''7'', lit ''3'']"
    unfolding e by simp
  have b: "map snd (tab_exports demo_env (lit ''S1'') [lit ''7'', lit ''3''] ?st1)
      = [Some ''a,b'', None]"
    unfolding e by simp
  have c: "fst (create_spreadsheet demo_env (lit ''S1'') st0) = Inr [(lit ''7.csv'', ''a,b'')]"
    using t1 by simp
  have d: "Log_error (lit ''Failed to fetch sheet 3 for S1'')
        \<in> set (logged (snd (create_spreadsheet demo_env (lit ''S1'') st0)))"
    using t1 by simp
  have f: "fst (create_spreadsheet demo_env (lit ''S3'') st0)
       = Inl (Exception ''No sheet could be fetched'')"
    using t3 by simp
  from g a b c d f show ?thesis by (intro conjI)
qed

subsection \<open>\<open>get_spreadsheet_title\<close>\<close>

lemma get_spreadsheet_title_eq:
  "get_spreadsheet_title env sid st =
     (case fetch_url env (htmlview_url sid) st of
        (None, st') \<Rightarrow> (Inr (lit ''spreadsheet_'' @ sid), st')
      | (Some r, st') \<Rightarrow>
          (case tag_title (BeautifulSoup env (text_of r)) of
             None \<Rightarrow> (Inr (lit ''spreadsheet_'' @ sid), st')
           | Some t \<Rightarrow>
               (case tag_string t of
                  None \<Rightarrow> (Inl TypeError, st')
                | Some title \<Rightarrow> (Inr (re_sub title), st'))))"
  by (simp add: get_spreadsheet_title_def fetch_html_eq split: prod.splits option.splits)

lemma get_spreadsheet_title_snd:
  "snd (get_spreadsheet_title env sid st) = snd (fetch_url env (htmlview_url sid) st)"
  by (simp add: get_spreadsheet_title_eq split: prod.splits option.splits)

lemma re_sub_example: "re_sub (lit ''My Sheet / Q1.2024'') = lit ''My_Sheet_Q1_2024''"
  by (simp add: is_sep_def)

text \<open>
  C6 fails on the code: for a preview page whose title element has no string (as
  \<open><title></title>\<close> parses), \<open>get_spreadsheet_title\<close> returns neither the fallback nor a
  title, it raises \<open>TypeError\<close>; \<open>create_document\<close> tests the string and takes its
  fallback on the same kind of page.
\<close>

theorem get_spreadsheet_title_raises:
  "fst (fetch_url demo_env (htmlview_url (lit ''S2'')) st0)
     = Some \<lparr>status_code = 200, content = ''<title></title>'', text_of = lit ''<title></title>''\<rparr>
   \<and> page_title (BeautifulSoup demo_env (lit ''<title></title>'')) = None
   \<and> fst (get_spreadsheet_title demo_env (lit ''S2'') st0) = Inl TypeError
   \<and> fst (download demo_env (Some (lit ''csv'')) [lit ''S2''] st0) = []
   \<and> fst (get_spreadsheet_title demo_env (lit ''S1'') st0) = Inr (lit ''My_Sheet_Q1_2024'')
   \<and> fst (get_spreadsheet_title demo_env (lit ''S3'') st0) = Inr (lit ''spreadsheet_S3'')"
  by (simp add: demo_env_def demo_page_def demo_soup_def st0_def leaf_def htmlview_url_def
      export_url_def gviz_url_def mobilebasic_url_def fetch_url_def fetch_url_try_def
      http_get_def logging_def page_title_def get_spreadsheet_title_eq is_sep_def
      download_def download_try_def)

subsection \<open>\<open>create_document\<close>\<close>

lemma create_document_eq:
  "create_document env doc_id st =
     (case fetch_url env (mobilebasic_url doc_id) st of
        (None, st') \<Rightarrow> (Inl AttributeError, st')
      | (Some r, st') \<Rightarrow>
          (case content_root (BeautifulSoup env (text_of r)) of
             None \<Rightarrow> (Inl AttributeError, st')
           | Some inner \<Rightarrow>
               (case parse_html_string env (prettify inner) of
                  Inl e \<Rightarrow> (Inl e, st')
                | Inr buffer \<Rightarrow>
                    (Inr ((case page_title (BeautifulSoup env (text_of r)) of
                             None \<Rightarrow> (lit ''document_'') @ doc_id
                           | Some t \<Rightarrow> if t = [] then (lit ''document_'') @ doc_id else re_sub t)
                          @ lit ''.docx'', buffer), st'))))"
proof (cases "fetch_url env (mobilebasic_url doc_id) st")
  case (Pair response st')
  then have h: "fetch_html env (mobilebasic_url doc_id) st
      = (map_option (\<lambda>r. BeautifulSoup env (text_of r)) response, st')"
    by (simp add: fetch_html_eq)
  show ?thesis
  proof (cases response)
    case None
    with Pair h show ?thesis by (simp add: create_document_def)
  next
    case (Some r)
    show ?thesis
    proof (cases "find_div_class_doc (BeautifulSoup env (text_of r))")
      case None
      with Pair h Some show ?thesis by (simp add: create_document_def content_root_def)
    next
      case outer: (Some outer)
      show ?thesis
      proof (cases "find_div outer")
        case None
        with Pair h Some outer show ?thesis
          by (simp add: create_document_def content_root_def)
      next
        case inner: (Some inner)
        with Pair h Some outer show ?thesis
          by (cases "parse_html_string env (prettify inner)")
             (simp_all add: create_document_def content_root_def document_title_def
                page_title_def split: option.splits)
      qed
    qed
  qed
qed

lemma create_document_snd:
  "snd (create_document env doc_id st) = snd (fetch_url env (mobilebasic_url doc_id) st)"
  by (simp add: create_document_eq split: prod.splits option.splits sum.splits)

text \<open>
  C2, as amended: \<open>create_document\<close> raises exactly when the fetch of the page fails, or
  the content container or its nested \<open>div\<close> is absent, or the conversion raises;
  otherwise it returns the converted bytes under the file name made of the sanitized
  page title, or of \<open>document_<id>\<close> when the page has no title text, and \<open>.docx\<close>.
\<close>

theorem create_document_raises_iff:
  "((\<exists>e. fst (create_document env doc_id st) = Inl e) \<longleftrightarrow>
      fst (fetch_url env (mobilebasic_url doc_id) st) = None
      \<or> (\<exists>r. fst (fetch_url env (mobilebasic_url doc_id) st) = Some r
            \<and> (content_root (BeautifulSoup env (text_of r)) = None
               \<or> (\<exists>inner e. content_root (BeautifulSoup env (text_of r)) = Some inner
                     \<and> parse_html_string env (prettify inner) = Inl e))))
   \<and> (\<forall>r inner buffer.
         fst (fetch_url env (mobilebasic_url doc_id) st) = Some r
         \<and> content_root (BeautifulSoup env (text_of r)) = Some inner
         \<and> parse_html_string env (prettify inner) = Inr buffer
         \<longrightarrow> fst (create_document env doc_id st) =
               Inr ((case page_title (BeautifulSoup env (text_of r)) of
                       None \<Rightarrow> (lit ''document_'') @ doc_id
                     | Some t \<Rightarrow> if t = [] then (lit ''document_'') @ doc_id else re_sub t)
                    @ lit ''.docx'', buffer))"
  by (cases "fetch_url env (mobilebasic_url doc_id) st")
     (auto simp: create_document_eq split: option.splits sum.splits)

theorem create_document_raises_iff_witness:
  "fst (fetch_url demo_env (mobilebasic_url (lit ''D1'')) st0)
     = Some \<lparr>status_code = 200, content = ''page D1'', text_of = lit ''page D1''\<rparr>
   \<and> content_root (BeautifulSoup demo_env (lit ''page D1''))
       = Some (leaf (Some (lit ''hello'')) (lit ''<div>hello</div>''))
   \<and> parse_html_string demo_env (lit ''<div>hello</div>'') = Inr ''docx of <div>hello</div>''
   \<and> fst (create_document demo_env (lit ''D1'') st0)
       = Inr (lit ''Report_1_0.docx'', ''docx of <div>hello</div>'')
   \<and> fst (fetch_url demo_env (mobilebasic_url (lit ''D9'')) st0) = None
   \<and> (\<exists>e. fst (create_document demo_env (lit ''D9'') st0) = Inl e)"
proof -
  let ?r = "\<lparr>status_code = 200, content = ''page D1'', text_of = lit ''page D1''\<rparr>"
  have f: "fst (fetch_url demo_env (mobilebasic_url (lit ''D1'')) st0) = Some ?r"
    by (simp add: demo_env_def demo_page_def st0_def htmlview_url_def export_url_def
        gviz_url_def mobilebasic_url_def fetch_url_def fetch_url_try_def http_get_def)
  have c: "content_root (BeautifulSoup demo_env (text_of ?r))
      = Some (leaf (Some (lit ''hello'')) (lit ''<div>hello</div>''))"
    by (simp add: demo_env_def demo_soup_def content_root_def)
  have p: "parse_html_string demo_env (prettify (leaf (Some (lit ''hello'')) (lit ''<div>hello</div>'')))
      = Inr ''docx of <div>hello</div>''"
    by (simp add: demo_env_def leaf_def)
  have t: "page_title (BeautifulSoup demo_env (lit ''page D1'')) = Some (lit ''Report 1.0'')"
    by (simp add: demo_env_def demo_soup_def page_title_def leaf_def)
  have f9: "fst (fetch_url demo_env (mobilebasic_url (lit ''D9'')) st0) = None"
    by (simp add: demo_env_def demo_page_def st0_def htmlview_url_def export_url_def
        gviz_url_def mobilebasic_url_def fetch_url_def fetch_url_try_def http_get_def)
  have d1: "fst (create_document demo_env (lit ''D1'') st0)
      = Inr (lit ''Report_1_0.docx'', ''docx of <div>hello</div>'')"
    using create_document_raises_iff [of demo_env "(lit ''D1'')" st0, THEN conjunct2, rule_format,
        of ?r "leaf (Some (lit ''hello'')) (lit ''<div>hello</div>'')" "''docx of <div>hello</div>''"]
      f c p t
    by (simp add: is_sep_def)
  have d9: "\<exists>e. fst (create_document demo_env (lit ''D9'') st0) = Inl e"
    using create_document_raises_iff [of demo_env "(lit ''D9'')" st0, THEN conjunct1] f9 by simp
  show ?thesis
    using f c p d1 f9 d9 by (simp add: demo_env_def leaf_def)
qed

theorem create_document_raises_counterexample:
  "fst (fetch_url demo_env (mobilebasic_url (lit ''D2'')) st0)
     = Some \<lparr>status_code = 200, content = ''page D2'', text_of = lit ''page D2''\<rparr>
   \<and> find_div_class_doc (BeautifulSoup demo_env (lit ''page D2'')) = Some (leaf None (lit ''<div class=doc>''))
   \<and> fst (create_document demo_env (lit ''D2'') st0) = Inl AttributeError"
  by (simp add: demo_env_def demo_page_def demo_soup_def st0_def leaf_def htmlview_url_def
      export_url_def gviz_url_def mobilebasic_url_def fetch_url_def fetch_url_try_def
      http_get_def logging_def content_root_def create_document_eq)

text \<open>
  C10, as amended: when the page is fetched, its content container and the nested \<open>div\<close>
  are present and the conversion succeeds, \<open>create_document\<close> returns the file name
  \<open>document_<id>.docx\<close> if the title element is missing or has no text, and the
  sanitized title with \<open>.docx\<close> if the title element has a non-empty string.
\<close>

theorem create_document_fallback_title:
  assumes "fst (fetch_url env (mobilebasic_url doc_id) st) = Some r"
    and "find_div_class_doc (BeautifulSoup env (text_of r)) = Some outer"
    and "find_div outer = Some inner"
    and "parse_html_string env (prettify inner) = Inr buffer"
  shows "(tag_title (BeautifulSoup env (text_of r)) = None
          \<or> (\<exists>t. tag_title (BeautifulSoup env (text_of r)) = Some t
                \<and> (tag_string t = None \<or> tag_string t = Some []))
          \<longrightarrow> fst (create_document env doc_id st)
                = Inr (lit ''document_'' @ doc_id @ lit ''.docx'', buffer))
    \<and> (\<forall>t s. tag_title (BeautifulSoup env (text_of r)) = Some t \<and> tag_string t = Some s
               \<and> s \<noteq> []
          \<longrightarrow> fst (create_document env doc_id st) = Inr (re_sub s @ lit ''.docx'', buffer))"
  using assms
  by (cases "fetch_url env (mobilebasic_url doc_id) st")
     (auto simp: create_document_eq content_root_def page_title_def)

theorem create_document_fallback_title_witness:
  "fst (fetch_url demo_env (mobilebasic_url (lit ''D3'')) st0)
     = Some \<lparr>status_code = 200, content = ''page D3'', text_of = lit ''page D3''\<rparr>
   \<and> tag_title (BeautifulSoup demo_env (lit ''page D3'')) = None
   \<and> fst (create_document demo_env (lit ''D3'') st0)
       = Inr (lit ''document_D3.docx'', ''docx of <div>bye</div>'')"
proof -
  have f: "fst (fetch_url demo_env (mobilebasic_url (lit ''D3'')) st0)
     = Some \<lparr>status_code = 200, content = ''page D3'', text_of = lit ''page D3''\<rparr>"
    by (simp add: demo_env_def demo_page_def st0_def htmlview_url_def
      export_url_def gviz_url_def mobilebasic_url_def fetch_url_def fetch_url_try_def
      http_get_def)
  have o: "find_div_class_doc (BeautifulSoup demo_env
        (text_of \<lparr>status_code = 200, content = ''page D3'', text_of = lit ''page D3''\<rparr>))
      = Some (Tag None (Some (lit ''bye'')) None (Some (leaf (Some (lit ''bye'')) (lit ''<div>bye</div>'')))
             (lit ''<div class=doc>''))"
    by (simp add: demo_env_def demo_soup_def)
  have i: "find_div (Tag None (Some (lit ''bye'')) None (Some (leaf (Some (lit ''bye'')) (lit ''<div>bye</div>'')))
             (lit ''<div class=doc>'')) = Some (leaf (Some (lit ''bye'')) (lit ''<div>bye</div>''))"
    by simp
  have c: "parse_html_string demo_env (prettify (leaf (Some (lit ''bye'')) (lit ''<div>bye</div>'')))
      = Inr ''docx of <div>bye</div>''"
    by (simp add: demo_env_def leaf_def)
  have t: "tag_title (BeautifulSoup demo_env (lit ''page D3'')) = None"
    by (simp add: demo_env_def demo_soup_def)
  show ?thesis
    using create_document_fallback_title [OF f o i c] f t by simp
qed

theorem create_document_fallback_title_counterexample:
  "fst (fetch_url demo_env (mobilebasic_url (lit ''D4'')) st0)
     = Some \<lparr>status_code = 200, content = ''page D4'', text_of = lit ''page D4''\<rparr>
   \<and> find_div_class_doc (BeautifulSoup demo_env (lit ''page D4'')) = Some (leaf None (lit ''<div class=doc>''))
   \<and> tag_title (BeautifulSoup demo_env (lit ''page D4'')) = Some (leaf None (lit ''<title>''))
   \<and> tag_string (leaf None (lit ''<title>'')) = None
   \<and> fst (create_document demo_env (lit ''D4'') st0) = Inl AttributeError"
  by (simp add: demo_env_def demo_page_def demo_soup_def st0_def leaf_def htmlview_url_def
      export_url_def gviz_url_def mobilebasic_url_def fetch_url_def fetch_url_try_def
      http_get_def logging_def content_root_def create_document_eq)

subsection \<open>\<open>download\<close>\<close>

lemma id_files_grows: "grows st (snd (id_files env doc_type doc_id st))"
proof -
  consider "doc_type = Some (lit ''docx'')" | "doc_type = Some (lit ''csv'')"
    | "doc_type \<noteq> Some (lit ''docx'')" "doc_type \<noteq> Some (lit ''csv'')"
    by blast
  then show ?thesis
  proof cases
    case 1
    have "snd (id_files env doc_type doc_id st) = snd (create_document env doc_id st)"
      using 1 by (simp add: id_files_def split: prod.splits sum.splits)
    then show ?thesis
      by (simp add: create_document_snd fetch_url_grows)
  next
    case 2
    obtain t st1 where g: "get_spreadsheet_title env doc_id st = (t, st1)"
      by (cases "get_spreadsheet_title env doc_id st")
    have a: "grows st st1"
      using get_spreadsheet_title_snd [of env doc_id st] g
        fetch_url_grows [of st env "htmlview_url doc_id"]
      by simp
    have b: "grows st1 (snd (create_spreadsheet env doc_id st1))"
      by (rule create_spreadsheet_grows)
    have "snd (id_files env doc_type doc_id st) = st1
        \<or> snd (id_files env doc_type doc_id st) = snd (create_spreadsheet env doc_id st1)"
      using 2 g by (auto simp: id_files_def split: prod.splits sum.splits)
    with a b show ?thesis by (auto intro: grows_trans)
  next
    case 3
    then show ?thesis by (simp add: id_files_def grows_refl)
  qed
qed

lemma download_csv_loop_eq:
  "download_csv_loop dirname files zf =
     (case write_error (map (\<lambda>(filename, buffer). (f filename, buffer)) files) of
        None \<Rightarrow> Inr ()
      | Some e \<Rightarrow> Inl e,
      zf @ stored (map (\<lambda>(filename, buffer). (f filename, buffer)) files))"
  if "f = (\<lambda>filename. dirname @ lit ''/'' @ filename)"
proof (induction files arbitrary: zf)
  case Nil
  show ?case by simp
next
  case (Cons x files)
  obtain filename buffer where x: "x = (filename, buffer)" by (cases x)
  show ?case
  proof (cases "zip_name (f filename)")
    case (Inl e)
    then have "zip_name (dirname @ lit ''/'' @ filename) = Inl e"
      by (simp only: that)
    with Inl x show ?thesis
      by (simp add: writestr_def)
  next
    case (Inr name)
    then have "zip_name (dirname @ lit ''/'' @ filename) = Inr name"
      by (simp only: that)
    with Inr x Cons.IH [of "zf @ [(name, buffer)]"] show ?thesis
      by (simp add: writestr_def)
  qed
qed

lemma download_try_eq:
  "download_try env doc_type doc_id zf st =
     (case id_files env doc_type doc_id st of
        (Inl e, st') \<Rightarrow> (Inl e, zf, st')
      | (Inr (name, files), st') \<Rightarrow>
          (case write_error files of None \<Rightarrow> Inr () | Some e \<Rightarrow> Inl e,
           zf @ stored files, st'))"
proof -
  consider "doc_type = Some (lit ''docx'')" | "doc_type = Some (lit ''csv'')"
    | "doc_type \<noteq> Some (lit ''docx'')" "doc_type \<noteq> Some (lit ''csv'')"
    by blast
  then show ?thesis
  proof cases
    case 1
    obtain r st' where c: "create_document env doc_id st = (r, st')"
      by (cases "create_document env doc_id st")
    show ?thesis
    proof (cases r)
      case (Inl e)
      with 1 c show ?thesis by (simp add: download_try_def id_files_def)
    next
      case (Inr fb)
      obtain filename buffer where fb: "fb = (filename, buffer)" by (cases fb)
      with 1 c Inr show ?thesis
        by (cases "zip_name filename") (simp_all add: download_try_def id_files_def writestr_def)
    qed
  next
    case 2
    obtain t st1 where g: "get_spreadsheet_title env doc_id st = (t, st1)"
      by (cases "get_spreadsheet_title env doc_id st")
    obtain fs st2 where c: "create_spreadsheet env doc_id st1 = (fs, st2)"
      by (cases "create_spreadsheet env doc_id st1")
    show ?thesis
    proof (cases t)
      case (Inl e)
      with 2 g show ?thesis by (simp add: download_try_def id_files_def)
    next
      case dirname: (Inr dirname)
      show ?thesis
      proof (cases fs)
        case (Inl e)
        with 2 g c dirname show ?thesis by (simp add: download_try_def id_files_def)
      next
        case (Inr files)
        have "download_csv_loop dirname files zf =
          (case write_error
                  (map (\<lambda>(filename, buffer). (dirname @ lit ''/'' @ filename, buffer)) files) of
             None \<Rightarrow> Inr ()
           | Some e \<Rightarrow> Inl e,
           zf @ stored
                  (map (\<lambda>(filename, buffer). (dirname @ lit ''/'' @ filename, buffer)) files))"
          by (rule download_csv_loop_eq) (rule refl)
        with 2 g c dirname Inr show ?thesis
          by (simp only: download_try_def id_files_def) simp
      qed
    qed
  next
    case 3
    then show ?thesis by (simp add: download_try_def id_files_def)
  qed
qed

lemma download_loop_step:
  "download_loop env doc_type (i # ids) zf st =
     (case id_files env doc_type i st of
        (r, st') \<Rightarrow>
          download_loop env doc_type ids
            (zf @ (case r of Inl e \<Rightarrow> [] | Inr (name, files) \<Rightarrow> stored files))
            (if failed r
             then logging (Log_exception (lit ''Failed to process document ID: '' @ i)) st'
             else st'))"
proof -
  obtain r st' where c: "id_files env doc_type i st = (r, st')"
    by (cases "id_files env doc_type i st")
  show ?thesis
  proof (cases r)
    case (Inl e)
    with c show ?thesis by (simp add: download_try_eq failed_def)
  next
    case (Inr nf)
    obtain name files where nf: "nf = (name, files)" by (cases nf)
    with c Inr show ?thesis
      by (cases "write_error files") (simp_all add: download_try_eq failed_def)
  qed
qed

lemma download_loop_entries:
  "fst (download_loop env doc_type ids zf st)
     = zf @ archived (id_results env doc_type ids st)"
proof (induction ids arbitrary: zf st)
  case Nil
  show ?case by simp
next
  case (Cons i ids)
  obtain r st' where c: "id_files env doc_type i st = (r, st')"
    by (cases "id_files env doc_type i st")
  show ?case
  proof (cases r)
    case (Inl e)
    with c show ?thesis
      unfolding download_loop_step by (simp add: Cons.IH)
  next
    case (Inr nf)
    obtain name files where nf: "nf = (name, files)" by (cases nf)
    with c Inr show ?thesis
      unfolding download_loop_step by (simp add: Cons.IH)
  qed
qed

lemma download_loop_grows: "grows st (snd (download_loop env doc_type ids zf st))"
proof (induction ids arbitrary: zf st)
  case Nil
  show ?case by (simp add: grows_refl)
next
  case (Cons i ids)
  obtain r st' where c: "id_files env doc_type i st = (r, st')"
    by (cases "id_files env doc_type i st")
  define st'' where "st'' =
    (if failed r then logging (Log_exception (lit ''Failed to process document ID: '' @ i)) st'
     else st')"
  define zf' where "zf' = zf @ (case r of Inl e \<Rightarrow> [] | Inr (name, files) \<Rightarrow> stored files)"
  have "grows st st'"
    using id_files_grows [of st env doc_type i] c by simp
  moreover have "grows st' st''"
    unfolding st''_def by (simp add: grows_refl grows_logging)
  moreover have "grows st'' (snd (download_loop env doc_type ids zf' st''))"
    by (rule Cons.IH)
  ultimately have "grows st (snd (download_loop env doc_type ids zf' st''))"
    by (blast intro: grows_trans)
  moreover have "download_loop env doc_type (i # ids) zf st
      = download_loop env doc_type ids zf' st''"
    unfolding download_loop_step st''_def zf'_def using c by simp
  ultimately show ?case by simp
qed

lemma download_loop_failures:
  "(i, r) \<in> set (id_results env doc_type ids st) \<Longrightarrow> failed r \<Longrightarrow>
     Log_exception (lit ''Failed to process document ID: '' @ i)
       \<in> set (logged (snd (download_loop env doc_type ids zf st)))"
proof (induction ids arbitrary: zf st)
  case Nil
  then show ?case by simp
next
  case (Cons j ids)
  obtain r' st' where c: "id_files env doc_type j st = (r', st')"
    by (cases "id_files env doc_type j st")
  define st'' where "st'' =
    (if failed r' then logging (Log_exception (lit ''Failed to process document ID: '' @ j)) st'
     else st')"
  define zf' where "zf' = zf @ (case r' of Inl e \<Rightarrow> [] | Inr (name, files) \<Rightarrow> stored files)"
  have step: "download_loop env doc_type (j # ids) zf st
      = download_loop env doc_type ids zf' st''"
    unfolding download_loop_step st''_def zf'_def using c by simp
  have res: "id_results env doc_type (j # ids) st = (j, r') # id_results env doc_type ids st''"
    unfolding st''_def using c by simp
  from Cons.prems(1) have "(i, r) \<in> set ((j, r') # id_results env doc_type ids st'')"
    by (simp only: res)
  then consider "i = j" "r = r'" | "(i, r) \<in> set (id_results env doc_type ids st'')"
    by auto
  then have "Log_exception (lit ''Failed to process document ID: '' @ i)
      \<in> set (logged (snd (download_loop env doc_type ids zf' st'')))"
  proof cases
    case 1
    with Cons.prems(2) have "st'' =
        logging (Log_exception (lit ''Failed to process document ID: '' @ i)) st'"
      unfolding st''_def by (simp only: if_True)
    then have "Log_exception (lit ''Failed to process document ID: '' @ i) \<in> set (logged st'')"
      by (simp only: logging_mem)
    with download_loop_grows [of st'' env doc_type ids zf'] show ?thesis
      by (rule grows_logged_mem)
  next
    case 2
    then show ?thesis using Cons.prems(2) by (rule Cons.IH)
  qed
  then show ?case by (simp only: step)
qed

lemma map_fst_id_results: "map fst (id_results env doc_type ids st) = ids"
  by (induction ids arbitrary: st) (auto split: prod.splits)

lemma archived_all_unresolved:
  "\<forall>x\<in>set rs. isl (snd x) \<Longrightarrow> archived rs = []"
  by (induction rs rule: archived.induct) auto

lemma id_results_invalid_type:
  "doc_type \<noteq> Some (lit ''docx'') \<Longrightarrow> doc_type \<noteq> Some (lit ''csv'') \<Longrightarrow>
     x \<in> set (id_results env doc_type ids st) \<Longrightarrow>
     snd x = Inl (ValueError ''Invalid document type'')"
  by (induction ids arbitrary: st) (auto simp: id_files_def)

lemma stored_prefix:
  "prefix (map (\<lambda>(n, d). (Inr n, d)) (stored fs)) (map (\<lambda>(p, d). (zip_name p, d)) fs)"
  by (induction fs rule: stored.induct) (auto split: sum.splits)

lemma stored_all:
  "write_error fs = None \<Longrightarrow>
     map (\<lambda>(n, d). (Inr n, d)) (stored fs) = map (\<lambda>(p, d). (zip_name p, d)) fs"
  by (induction fs rule: stored.induct) (auto split: sum.splits)

lemma stored_length: "length (stored fs) \<le> length fs"
  by (induction fs rule: stored.induct) (auto split: sum.splits)

lemma stored_less: "write_error fs \<noteq> None \<Longrightarrow> length (stored fs) < length fs"
proof (induction fs rule: stored.induct)
  case 1
  then show ?case by simp
next
  case (2 path data files)
  then show ?case
    using stored_length [of files] by (cases "zip_name path") auto
qed

lemma re_sub_no_sep: "\<forall>c\<in>set s. \<not> is_sep c \<Longrightarrow> re_sub s = s"
  by (induction s) auto

lemma long_title_chars: "c \<in> set long_title \<Longrightarrow> c = Ch CHR ''a''"
  by (simp add: long_title_def)

lemma long_title_size: "sum_list (map utf8_size long_title) = 65525"
  by (simp add: long_title_def sum_list_replicate utf8_size_def)

lemma re_sub_long_title: "re_sub long_title = long_title"
  by (rule re_sub_no_sep) (auto dest: long_title_chars simp: is_sep_def)

lemma long_title_not_empty: "long_title \<noteq> []"
  by (simp add: long_title_def)

lemma zip_name_long:
  assumes "Ch (CHR 0x00) \<notin> set s" and "\<not> list_ex surrogate s"
  shows "zip_name (long_title @ s) =
     (if 10 < sum_list (map utf8_size s) then Inl StructError else Inr (long_title @ s))"
proof -
  have tw: "takeWhile (\<lambda>c. c \<noteq> Ch (CHR 0x00)) (long_title @ s) = long_title @ s"
    using assms(1) by (auto dest: long_title_chars)
  have ns: "\<not> list_ex surrogate (long_title @ s)"
    using assms(2) by (auto simp: list_ex_iff surrogate_def dest!: long_title_chars)
  have ne: "long_title @ s \<noteq> []"
    by (simp add: long_title_not_empty)
  have sz: "sum_list (map utf8_size (long_title @ s)) = 65525 + sum_list (map utf8_size s)"
    by (simp add: long_title_size)
  show ?thesis
    unfolding zip_name_def tw Let_def
    by (simp only: ns ne sz if_False) simp
qed

text \<open>
  C1, as amended: for every \<open>doc_type\<close> and list of ids, \<open>download\<close> returns an archive
  (it never raises): every id is processed in turn; an id that fails, in its resolution
  (an invalid \<open>doc_type\<close> included) or in the writing of one of its entries, is logged
  with its id, and the ids after it are still processed. The archive holds, in the order
  of the ids, every entry of an id that succeeded and, of an id that failed, the entries
  written before the failure: none when its resolution failed, and those before the entry
  whose writing raised otherwise. It is empty when the list is empty or the resolution of
  every id fails.
\<close>

theorem download_archive:
  "fst (download env doc_type doc_ids st) = archived (id_results env doc_type doc_ids st)
   \<and> map fst (id_results env doc_type doc_ids st) = doc_ids
   \<and> (\<forall>i r. (i, r) \<in> set (id_results env doc_type doc_ids st) \<and> failed r \<longrightarrow>
         Log_exception (lit ''Failed to process document ID: '' @ i)
           \<in> set (logged (snd (download env doc_type doc_ids st))))
   \<and> (\<forall>fs. prefix (map (\<lambda>(n, d). (Inr n, d)) (stored fs))
               (map (\<lambda>(p, d). (zip_name p, d)) fs)
         \<and> (write_error fs = None \<longrightarrow>
              map (\<lambda>(n, d). (Inr n, d)) (stored fs) = map (\<lambda>(p, d). (zip_name p, d)) fs)
         \<and> (write_error fs \<noteq> None \<longrightarrow> length (stored fs) < length fs))
   \<and> (doc_type \<noteq> Some (lit ''docx'') \<and> doc_type \<noteq> Some (lit ''csv'') \<longrightarrow>
         (\<forall>x\<in>set (id_results env doc_type doc_ids st).
            snd x = Inl (ValueError ''Invalid document type'')))
   \<and> ((\<forall>x\<in>set (id_results env doc_type doc_ids st). isl (snd x)) \<longrightarrow>
         fst (download env doc_type doc_ids st) = [])
   \<and> fst (download env doc_type [] st) = []"
proof (intro conjI allI impI ballI)
  show e: "fst (download env doc_type doc_ids st)
     = archived (id_results env doc_type doc_ids st)"
    using download_loop_entries [of env doc_type doc_ids "[]" st] by (simp add: download_def)
  show "map fst (id_results env doc_type doc_ids st) = doc_ids"
    by (rule map_fst_id_results)
  show "fst (download env doc_type [] st) = []"
    by (simp add: download_def)
  show "fst (download env doc_type doc_ids st) = []"
    if "\<forall>x\<in>set (id_results env doc_type doc_ids st). isl (snd x)"
    using that e by (simp add: archived_all_unresolved)
  show "prefix (map (\<lambda>(n, d). (Inr n, d)) (stored fs)) (map (\<lambda>(p, d). (zip_name p, d)) fs)"
    for fs
    by (rule stored_prefix)
  show "map (\<lambda>(n, d). (Inr n, d)) (stored fs) = map (\<lambda>(p, d). (zip_name p, d)) fs"
    if "write_error fs = None" for fs
    using that by (rule stored_all)
  show "length (stored fs) < length fs" if "write_error fs \<noteq> None" for fs
    using that by (rule stored_less)
next
  fix i r
  assume "(i, r) \<in> set (id_results env doc_type doc_ids st) \<and> failed r"
  then have "Log_exception (lit ''Failed to process document ID: '' @ i)
       \<in> set (logged (snd (download_loop env doc_type doc_ids [] st)))"
    by (blast intro: download_loop_failures)
  then show "Log_exception (lit ''Failed to process document ID: '' @ i)
           \<in> set (logged (snd (download env doc_type doc_ids st)))"
    by (simp add: download_def)
next
  fix x
  assume a: "doc_type \<noteq> Some (lit ''docx'') \<and> doc_type \<noteq> Some (lit ''csv'')"
    and b: "x \<in> set (id_results env doc_type doc_ids st)"
  from a have "doc_type \<noteq> Some (lit ''docx'')" and "doc_type \<noteq> Some (lit ''csv'')"
    by blast+
  then show "snd x = Inl (ValueError ''Invalid document type'')"
    using b by (rule id_results_invalid_type)
qed

theorem download_archive_witness:
  "id_results demo_env (Some (lit ''docx'')) [lit ''D1'', lit ''D2'', lit ''D3''] st0
     = [(lit ''D1'', Inr (lit ''Report_1_0.docx'',
           [(lit ''Report_1_0.docx'', ''docx of <div>hello</div>'')])),
        (lit ''D2'', Inl AttributeError),
        (lit ''D3'', Inr (lit ''document_D3.docx'',
           [(lit ''document_D3.docx'', ''docx of <div>bye</div>'')]))]
   \<and> failed (Inl AttributeError)
   \<and> fst (download demo_env (Some (lit ''docx'')) [lit ''D1'', lit ''D2'', lit ''D3''] st0)
       = [(lit ''Report_1_0.docx'', ''docx of <div>hello</div>''),
          (lit ''document_D3.docx'', ''docx of <div>bye</div>'')]
   \<and> Log_exception (lit ''Failed to process document ID: D2'')
        \<in> set (logged (snd (download demo_env (Some (lit ''docx''))
                 [lit ''D1'', lit ''D2'', lit ''D3''] st0)))
   \<and> write_error [(long_title @ lit ''/1.csv'', ''x''),
                   (long_title @ lit ''/1234567890.csv'', ''y'')] = Some StructError
   \<and> length (stored [(long_title @ lit ''/1.csv'', ''x''),
                      (long_title @ lit ''/1234567890.csv'', ''y'')]) < 2
   \<and> id_results demo_env (Some (lit ''pdf'')) [lit ''D1'', lit ''D3''] st0
       = [(lit ''D1'', Inl (ValueError ''Invalid document type'')),
          (lit ''D3'', Inl (ValueError ''Invalid document type''))]
   \<and> fst (download demo_env (Some (lit ''pdf'')) [lit ''D1'', lit ''D3''] st0) = []
   \<and> fst (download demo_env (Some (lit ''docx'')) [] st0) = []"
proof -
  let ?ids = "[lit ''D1'', lit ''D2'', lit ''D3'']"
  let ?fs = "[(long_title @ lit ''/1.csv'', ''x''), (long_title @ lit ''/1234567890.csv'', ''y'')]"
  have r: "id_results demo_env (Some (lit ''docx'')) ?ids st0
     = [(lit ''D1'', Inr (lit ''Report_1_0.docx'',
           [(lit ''Report_1_0.docx'', ''docx of <div>hello</div>'')])),
        (lit ''D2'', Inl AttributeError),
        (lit ''D3'', Inr (lit ''document_D3.docx'',
           [(lit ''document_D3.docx'', ''docx of <div>bye</div>'')]))]"
    by (simp add: id_files_def create_document_eq demo_env_def demo_page_def demo_soup_def
        st0_def leaf_def htmlview_url_def export_url_def gviz_url_def mobilebasic_url_def
        fetch_url_def fetch_url_try_def http_get_def logging_def content_root_def
        page_title_def is_sep_def failed_def zip_name_def utf8_size_def surrogate_def)
  have fl: "failed (Inl AttributeError)"
    by (simp add: failed_def)
  have m: "(lit ''D2'', Inl AttributeError)
      \<in> set (id_results demo_env (Some (lit ''docx'')) ?ids st0)"
    unfolding r by simp
  note t = download_archive [of demo_env "Some (lit ''docx'')" ?ids st0]
  have d: "fst (download demo_env (Some (lit ''docx'')) ?ids st0)
       = [(lit ''Report_1_0.docx'', ''docx of <div>hello</div>''),
          (lit ''document_D3.docx'', ''docx of <div>bye</div>'')]"
    using t [THEN conjunct1, unfolded r]
    by (simp add: zip_name_def utf8_size_def surrogate_def)
  have l: "Log_exception (lit ''Failed to process document ID: D2'')
        \<in> set (logged (snd (download demo_env (Some (lit ''docx'')) ?ids st0)))"
    using t [THEN conjunct2, THEN conjunct2, THEN conjunct1, rule_format,
        OF conjI [OF m fl]]
    by simp
  have we: "write_error ?fs = Some StructError"
    by (simp add: zip_name_long surrogate_def utf8_size_def)
  then have wn: "write_error ?fs \<noteq> None" by simp
  have sl: "length (stored ?fs) < 2"
    using t [THEN conjunct2, THEN conjunct2, THEN conjunct2, THEN conjunct1, rule_format,
        THEN conjunct2, THEN conjunct2, THEN mp, OF wn]
    by simp
  have q: "id_results demo_env (Some (lit ''pdf'')) [lit ''D1'', lit ''D3''] st0
       = [(lit ''D1'', Inl (ValueError ''Invalid document type'')),
          (lit ''D3'', Inl (ValueError ''Invalid document type''))]"
    by (simp add: id_files_def failed_def logging_def)
  have p: "\<forall>x\<in>set (id_results demo_env (Some (lit ''pdf'')) [lit ''D1'', lit ''D3''] st0).
      isl (snd x)"
    unfolding q by simp
  have f: "fst (download demo_env (Some (lit ''pdf'')) [lit ''D1'', lit ''D3''] st0) = []"
    using download_archive [of demo_env "Some (lit ''pdf'')" "[lit ''D1'', lit ''D3'']" st0,
        THEN conjunct2, THEN conjunct2, THEN conjunct2, THEN conjunct2, THEN conjunct2,
        THEN conjunct1, THEN mp, OF p] .
  have n: "fst (download demo_env (Some (lit ''docx'')) [] st0) = []"
    using download_archive [of demo_env "Some (lit ''docx'')" "[]" st0] by blast
  from r fl d l we sl q f n show ?thesis by (intro conjI)
qed

lemma demo_S4_files:
  "fst (id_files demo_env (Some (lit ''csv'')) (lit ''S4'') st0)
     = Inr (long_title,
            [(long_title @ lit ''/1.csv'', ''x''),
             (long_title @ lit ''/1234567890.csv'', ''y'')])"
  by (simp add: id_files_def get_spreadsheet_title_eq create_spreadsheet_def get_sheet_ids_eq
      create_sheet_eq csv_body_def demo_env_def demo_page_def demo_soup_def st0_def leaf_def
      htmlview_url_def export_url_def gviz_url_def mobilebasic_url_def fetch_url_def
      fetch_url_try_def http_get_def logging_def re_sub_long_title
      split: prod.splits)

theorem download_archive_counterexample:
  "fst (download_try demo_env (Some (lit ''csv'')) (lit ''S4'') [] st0) = Inl StructError
   \<and> Log_exception (lit ''Failed to process document ID: S4'')
        \<in> set (logged (snd (download demo_env (Some (lit ''csv'')) [lit ''S4''] st0)))
   \<and> fst (download demo_env (Some (lit ''csv'')) [lit ''S4''] st0)
       = [(long_title @ lit ''/1.csv'', ''x'')]"
proof -
  let ?fs = "[(long_title @ lit ''/1.csv'', ''x''), (long_title @ lit ''/1234567890.csv'', ''y'')]"
  obtain r st' where c: "id_files demo_env (Some (lit ''csv'')) (lit ''S4'') st0 = (r, st')"
    by (cases "id_files demo_env (Some (lit ''csv'')) (lit ''S4'') st0")
  with demo_S4_files have r: "r = Inr (long_title, ?fs)" by simp
  have we: "write_error ?fs = Some StructError"
    by (simp add: zip_name_long surrogate_def utf8_size_def)
  have s: "stored ?fs = [(long_title @ lit ''/1.csv'', ''x'')]"
    by (simp add: zip_name_long surrogate_def utf8_size_def)
  have fl: "failed r"
    unfolding r failed_def using we by simp
  have a: "fst (download_try demo_env (Some (lit ''csv'')) (lit ''S4'') [] st0) = Inl StructError"
    unfolding download_try_eq c r using we by simp
  have res: "id_results demo_env (Some (lit ''csv'')) [lit ''S4''] st0 = [(lit ''S4'', r)]"
    using c by simp
  have "(lit ''S4'', r) \<in> set (id_results demo_env (Some (lit ''csv'')) [lit ''S4''] st0)"
    unfolding res by simp
  then have "Log_exception (lit ''Failed to process document ID: '' @ lit ''S4'')
       \<in> set (logged (snd (download_loop demo_env (Some (lit ''csv'')) [lit ''S4''] [] st0)))"
    using fl by (rule download_loop_failures)
  then have b: "Log_exception (lit ''Failed to process document ID: S4'')
        \<in> set (logged (snd (download demo_env (Some (lit ''csv'')) [lit ''S4''] st0)))"
    by (simp add: download_def)
  have "fst (download demo_env (Some (lit ''csv'')) [lit ''S4''] st0)
      = archived [(lit ''S4'', r)]"
    using download_loop_entries [of demo_env "Some (lit ''csv'')" "[lit ''S4'']" "[]" st0]
    unfolding res by (simp add: download_def)
  then have d: "fst (download demo_env (Some (lit ''csv'')) [lit ''S4''] st0)
       = [(long_title @ lit ''/1.csv'', ''x'')]"
    unfolding r using s by simp
  from a b d show ?thesis by (intro conjI)
qed

lemma digit_plain: "is_digit nd c \<Longrightarrow> c \<noteq> Ch CHR ''/'' \<and> c \<noteq> Ch (CHR 0x00)"
  by (cases c) auto

lemma get_sheet_ids_digits:
  assumes "t \<in> set (fst (get_sheet_ids env sid st))"
  shows "\<forall>c\<in>set t. is_digit (unicode_Nd env) c"
proof -
  obtain response st' where f: "fetch_url env (htmlview_url sid) st = (response, st')"
    by (cases "fetch_url env (htmlview_url sid) st")
  have zero: "\<forall>c\<in>set (lit ''0''). is_digit (unicode_Nd env) c"
    by simp
  show ?thesis
  proof (cases response)
    case None
    with f assms have "t = lit ''0''" by (simp add: get_sheet_ids_eq)
    with zero show ?thesis by (simp only:)
  next
    case (Some r)
    show ?thesis
    proof (cases "findall_gid (unicode_Nd env) (text_of r) = []")
      case True
      with f Some assms have "t = lit ''0''" by (simp add: get_sheet_ids_eq)
      with zero show ?thesis by (simp only:)
    next
      case False
      with f Some assms have "t \<in> set (findall_gid (unicode_Nd env) (text_of r))"
        by (simp add: get_sheet_ids_eq set_first_seen)
      then show ?thesis by (blast dest: findall_gid_sound)
    qed
  qed
qed

lemma create_spreadsheet_names:
  assumes "fst (create_spreadsheet env sid st) = Inr files" and "(f, b) \<in> set files"
  shows "\<exists>t. f = t @ lit ''.csv'' \<and> (\<forall>c\<in>set t. is_digit (unicode_Nd env) c)"
proof -
  obtain tabs st1 where g: "get_sheet_ids env sid st = (tabs, st1)"
    by (cases "get_sheet_ids env sid st")
  have "files = csv_files (tab_exports env sid tabs st1)"
    using assms(1) create_spreadsheet_eq [OF g] by (simp split: if_splits)
  with assms(2) have "f \<in> fst ` set (csv_files (tab_exports env sid tabs st1))"
    by force
  with fst_csv_files_subset [of "tab_exports env sid tabs st1"]
  have "f \<in> (\<lambda>t. t @ lit ''.csv'') ` fst ` set (tab_exports env sid tabs st1)"
    by blast
  then obtain t where t: "f = t @ lit ''.csv''"
    and "t \<in> set (map fst (tab_exports env sid tabs st1))"
    by auto
  then have "t \<in> set tabs" by (simp only: map_fst_tab_exports)
  with g have "t \<in> set (fst (get_sheet_ids env sid st))" by simp
  then have "\<forall>c\<in>set t. is_digit (unicode_Nd env) c" by (rule get_sheet_ids_digits)
  with t show ?thesis by blast
qed

lemma csv_name_plain:
  assumes "\<forall>c\<in>set t. is_digit nd c"
  shows "Ch CHR ''/'' \<notin> set (t @ lit ''.csv'') \<and> Ch (CHR 0x00) \<notin> set (t @ lit ''.csv'')"
  using assms by (auto dest: digit_plain)

lemma dropWhile_upto:
  "s \<notin> set a \<Longrightarrow> dropWhile (\<lambda>x. x \<noteq> s) (a @ s # b) = s # b"
  by (induction a) auto

lemma split_last:
  assumes "s \<notin> set f" and "s \<notin> set f'" and "n @ s # f = n' @ s # f'"
  shows "n = n'"
proof -
  have 1: "dropWhile (\<lambda>x. x \<noteq> s) (rev (n @ s # f)) = s # rev n"
    using assms(1) dropWhile_upto [of s "rev f" "rev n"] by simp
  have 2: "dropWhile (\<lambda>x. x \<noteq> s) (rev (n' @ s # f')) = s # rev n'"
    using assms(2) dropWhile_upto [of s "rev f'" "rev n'"] by simp
  from 1 2 assms(3) have "rev n = rev n'" by simp
  then show ?thesis by simp
qed

lemma belongs_unique: "belongs doc_type n p \<Longrightarrow> belongs doc_type n' p \<Longrightarrow> n = n'"
proof (cases "doc_type = Some (lit ''docx'')")
  case True
  assume "belongs doc_type n p" and "belongs doc_type n' p"
  with True show ?thesis by (simp add: belongs_def)
next
  case False
  assume a: "belongs doc_type n p" and b: "belongs doc_type n' p"
  from False a have "\<exists>f. p = n @ Ch CHR ''/'' # f \<and> Ch CHR ''/'' \<notin> set f"
    by (auto simp: belongs_def)
  then obtain f where f: "p = n @ Ch CHR ''/'' # f" "Ch CHR ''/'' \<notin> set f"
    by blast
  from False b have "\<exists>f. p = n' @ Ch CHR ''/'' # f \<and> Ch CHR ''/'' \<notin> set f"
    by (auto simp: belongs_def)
  then obtain f' where f': "p = n' @ Ch CHR ''/'' # f'" "Ch CHR ''/'' \<notin> set f'"
    by blast
  from f(1) f'(1) have "n @ Ch CHR ''/'' # f = n' @ Ch CHR ''/'' # f'" by simp
  with f(2) f'(2) show ?thesis by (rule split_last)
qed

lemma belongs_no_nul:
  "Ch (CHR 0x00) \<notin> set n \<Longrightarrow> belongs doc_type n p \<Longrightarrow> Ch (CHR 0x00) \<notin> set p"
  by (cases "doc_type = Some (lit ''docx'')") (auto simp: belongs_def)

lemma id_files_belongs:
  assumes "fst (id_files env doc_type i st) = Inr (n, fs)"
  shows "distinct (map fst fs) \<and> (\<forall>p\<in>set (map fst fs). belongs doc_type n p)"
proof -
  consider "doc_type = Some (lit ''docx'')" | "doc_type = Some (lit ''csv'')"
    | "doc_type \<noteq> Some (lit ''docx'')" "doc_type \<noteq> Some (lit ''csv'')"
    by blast
  then show ?thesis
  proof cases
    case 1
    obtain r st' where c: "create_document env i st = (r, st')"
      by (cases "create_document env i st")
    show ?thesis
    proof (cases r)
      case (Inl e)
      with 1 c assms show ?thesis by (simp add: id_files_def)
    next
      case (Inr fb)
      obtain filename buffer where "fb = (filename, buffer)" by (cases fb)
      with 1 c Inr assms have "n = filename" and "fs = [(filename, buffer)]"
        by (auto simp: id_files_def)
      with 1 show ?thesis by (simp add: belongs_def)
    qed
  next
    case 2
    then have nd: "doc_type \<noteq> Some (lit ''docx'')" by simp
    obtain t st1 where g: "get_spreadsheet_title env i st = (t, st1)"
      by (cases "get_spreadsheet_title env i st")
    obtain r st2 where c: "create_spreadsheet env i st1 = (r, st2)"
      by (cases "create_spreadsheet env i st1")
    show ?thesis
    proof (cases t)
      case (Inl e)
      with 2 g assms show ?thesis by (simp add: id_files_def)
    next
      case dirname: (Inr dirname)
      show ?thesis
      proof (cases r)
        case (Inl e)
        with 2 g c dirname assms show ?thesis by (simp add: id_files_def)
      next
        case (Inr files)
        with 2 g c dirname assms have n: "n = dirname"
          and fs: "fs = map (\<lambda>(filename, buffer). (dirname @ lit ''/'' @ filename, buffer)) files"
          by (auto simp: id_files_def)
        from c Inr have cs: "fst (create_spreadsheet env i st1) = Inr files" by simp
        then have "distinct (map fst files)" by (rule create_spreadsheet_distinct)
        then have "distinct (map (\<lambda>f. dirname @ lit ''/'' @ f) (map fst files))"
          by (simp add: distinct_map inj_on_def)
        moreover have paths: "map fst fs = map (\<lambda>f. dirname @ lit ''/'' @ f) (map fst files)"
          unfolding fs by (induction files) auto
        ultimately have d: "distinct (map fst fs)" by (simp only:)
        have "belongs doc_type n p" if "p \<in> set (map fst fs)" for p
        proof -
          from that paths obtain f b where fb: "(f, b) \<in> set files"
            and p: "p = dirname @ lit ''/'' @ f"
            by auto
          from cs fb obtain t where f: "f = t @ lit ''.csv''"
            and "\<forall>c\<in>set t. is_digit (unicode_Nd env) c"
            by (blast dest: create_spreadsheet_names)
          from this(2)
          have "Ch CHR ''/'' \<notin> set (t @ lit ''.csv'') \<and> Ch (CHR 0x00) \<notin> set (t @ lit ''.csv'')"
            by (rule csv_name_plain)
          then have "Ch CHR ''/'' \<notin> set f \<and> Ch (CHR 0x00) \<notin> set f"
            unfolding f .
          with nd p n show ?thesis
            unfolding belongs_def by (simp only: if_False) blast
        qed
        with d show ?thesis by blast
      qed
    qed
  next
    case 3
    with assms show ?thesis by (simp add: id_files_def)
  qed
qed

lemma zip_name_no_nul:
  "Ch (CHR 0x00) \<notin> set p \<Longrightarrow> zip_name p = Inr q \<Longrightarrow> q = p"
proof -
  assume a: "Ch (CHR 0x00) \<notin> set p" and b: "zip_name p = Inr q"
  from a have "takeWhile (\<lambda>c. c \<noteq> Ch (CHR 0x00)) p = p" by auto
  with b show ?thesis
    by (simp add: zip_name_def Let_def split: if_splits)
qed

lemma stored_names:
  "\<forall>p\<in>set (map fst fs). Ch (CHR 0x00) \<notin> set p \<Longrightarrow>
     prefix (map fst (stored fs)) (map fst fs)"
proof (induction fs rule: stored.induct)
  case 1
  show ?case by simp
next
  case (2 path data files)
  show ?case
  proof (cases "zip_name path")
    case (Inl e)
    then show ?thesis by simp
  next
    case (Inr q)
    from "2.prems" have "Ch (CHR 0x00) \<notin> set path" by simp
    then have "q = path" using Inr by (rule zip_name_no_nul)
    moreover from "2.prems" Inr have "prefix (map fst (stored files)) (map fst files)"
      by (intro "2.IH") simp_all
    ultimately show ?thesis using Inr by simp
  qed
qed

lemma prefix_distinct: "prefix xs ys \<Longrightarrow> distinct ys \<Longrightarrow> distinct xs"
  by (auto simp: prefix_def)

lemma archived_distinct:
  assumes "distinct (resolved_names (id_results env doc_type ids st))"
    and "\<forall>n\<in>set (resolved_names (id_results env doc_type ids st)). Ch (CHR 0x00) \<notin> set n"
  shows "distinct (map fst (archived (id_results env doc_type ids st)))
    \<and> (\<forall>p\<in>set (map fst (archived (id_results env doc_type ids st))).
          \<exists>n\<in>set (resolved_names (id_results env doc_type ids st)). belongs doc_type n p)"
  using assms
proof (induction ids arbitrary: st)
  case Nil
  show ?case by simp
next
  case (Cons i ids)
  obtain r st' where c: "id_files env doc_type i st = (r, st')"
    by (cases "id_files env doc_type i st")
  define st'' where "st'' =
    (if failed r then logging (Log_exception (lit ''Failed to process document ID: '' @ i)) st'
     else st')"
  define rest where "rest = id_results env doc_type ids st''"
  have res: "id_results env doc_type (i # ids) st = (i, r) # rest"
    unfolding rest_def st''_def using c by simp
  show ?case
  proof (cases r)
    case (Inl e)
    with Cons.prems res have "distinct (resolved_names rest)"
      and "\<forall>n\<in>set (resolved_names rest). Ch (CHR 0x00) \<notin> set n"
      by simp_all
    then have "distinct (map fst (archived rest))
      \<and> (\<forall>p\<in>set (map fst (archived rest)). \<exists>n\<in>set (resolved_names rest). belongs doc_type n p)"
      unfolding rest_def by (rule Cons.IH)
    with Inl show ?thesis unfolding res by simp
  next
    case (Inr nf)
    obtain n fs where nf: "nf = (n, fs)" by (cases nf)
    from Cons.prems res Inr nf have names: "n \<notin> set (resolved_names rest)"
      "distinct (resolved_names rest)" "Ch (CHR 0x00) \<notin> set n"
      "\<forall>n\<in>set (resolved_names rest). Ch (CHR 0x00) \<notin> set n"
      by simp_all
    from names(2,4) have ih: "distinct (map fst (archived rest))"
      "\<forall>p\<in>set (map fst (archived rest)). \<exists>n\<in>set (resolved_names rest). belongs doc_type n p"
      unfolding rest_def using Cons.IH [of st''] by blast+
    from c Inr nf have "fst (id_files env doc_type i st) = Inr (n, fs)" by simp
    then have d: "distinct (map fst fs)" and b: "\<forall>p\<in>set (map fst fs). belongs doc_type n p"
      using id_files_belongs by blast+
    from b names(3) have "\<forall>p\<in>set (map fst fs). Ch (CHR 0x00) \<notin> set p"
      by (blast dest: belongs_no_nul)
    then have pre: "prefix (map fst (stored fs)) (map fst fs)"
      by (rule stored_names)
    from pre d have ds: "distinct (map fst (stored fs))" by (rule prefix_distinct)
    from pre have sub: "set (map fst (stored fs)) \<subseteq> set (map fst fs)"
      by (rule set_mono_prefix)
    have disj: "set (map fst (stored fs)) \<inter> set (map fst (archived rest)) = {}"
    proof (rule ccontr)
      assume "set (map fst (stored fs)) \<inter> set (map fst (archived rest)) \<noteq> {}"
      then obtain p where p1: "p \<in> set (map fst (stored fs))"
        and p2: "p \<in> set (map fst (archived rest))"
        by blast
      from p1 sub b have "belongs doc_type n p" by blast
      moreover from p2 ih(2) obtain n' where "n' \<in> set (resolved_names rest)"
        and "belongs doc_type n' p"
        by blast
      ultimately show False using names(1) by (auto dest: belongs_unique)
    qed
    have own: "\<exists>m\<in>set (resolved_names ((i, r) # rest)). belongs doc_type m p"
      if "p \<in> set (map fst (archived ((i, r) # rest)))" for p
    proof -
      from that Inr nf
      consider "p \<in> set (map fst (stored fs))" | "p \<in> set (map fst (archived rest))"
        by auto
      then show ?thesis
      proof cases
        case 1
        with sub b have "belongs doc_type n p" by blast
        with Inr nf show ?thesis by simp
      next
        case 2
        with ih(2) obtain n' where "n' \<in> set (resolved_names rest)" and "belongs doc_type n' p"
          by blast
        with Inr nf show ?thesis by auto
      qed
    qed
    have "distinct (map fst (archived ((i, r) # rest)))"
      using Inr nf ds ih(1) disj by simp
    with own show ?thesis unfolding res by blast
  qed
qed

text \<open>
  C8, as amended: in every archive produced by a build in which the names the requested
  ids resolve to (the file name of a document, the directory name of a spreadsheet) are
  pairwise different and contain no NUL character, no two entries share a path. When two
  requested ids resolve to the same name (the title collision, also an id requested
  twice) or a name contains a NUL character (\<open>zipfile\<close> stores a path cut at its first
  NUL), entries can share a path.
\<close>

theorem download_paths_distinct:
  assumes "distinct (resolved_names (id_results env doc_type doc_ids st))"
    and "\<forall>n\<in>set (resolved_names (id_results env doc_type doc_ids st)).
           Ch (CHR 0x00) \<notin> set n"
  shows "distinct (map fst (fst (download env doc_type doc_ids st)))"
proof -
  have "fst (download env doc_type doc_ids st) = archived (id_results env doc_type doc_ids st)"
    using download_loop_entries [of env doc_type doc_ids "[]" st] by (simp add: download_def)
  with archived_distinct [OF assms] show ?thesis by simp
qed

theorem download_paths_distinct_witness:
  "resolved_names (id_results demo_env (Some (lit ''docx'')) [lit ''D1'', lit ''D2'', lit ''D3'']
       st0)
     = [lit ''Report_1_0.docx'', lit ''document_D3.docx'']
   \<and> distinct [lit ''Report_1_0.docx'', lit ''document_D3.docx'']
   \<and> Ch (CHR 0x00) \<notin> set (lit ''Report_1_0.docx'')
   \<and> Ch (CHR 0x00) \<notin> set (lit ''document_D3.docx'')
   \<and> distinct (map fst (fst (download demo_env (Some (lit ''docx''))
         [lit ''D1'', lit ''D2'', lit ''D3''] st0)))
   \<and> resolved_names (id_results demo_env (Some (lit ''csv'')) [lit ''S1''] st0)
       = [lit ''My_Sheet_Q1_2024'']
   \<and> distinct (map fst (fst (download demo_env (Some (lit ''csv'')) [lit ''S1''] st0)))"
proof -
  let ?ids = "[lit ''D1'', lit ''D2'', lit ''D3'']"
  have r: "resolved_names (id_results demo_env (Some (lit ''docx'')) ?ids st0)
     = [lit ''Report_1_0.docx'', lit ''document_D3.docx'']"
    by (simp add: id_files_def create_document_eq demo_env_def demo_page_def demo_soup_def
        st0_def leaf_def htmlview_url_def export_url_def gviz_url_def mobilebasic_url_def
        fetch_url_def fetch_url_try_def http_get_def logging_def content_root_def
        page_title_def is_sep_def failed_def zip_name_def utf8_size_def surrogate_def)
  have a: "distinct [lit ''Report_1_0.docx'', lit ''document_D3.docx'']"
    by simp
  have b1: "Ch (CHR 0x00) \<notin> set (lit ''Report_1_0.docx'')"
    and b2: "Ch (CHR 0x00) \<notin> set (lit ''document_D3.docx'')"
    by simp_all
  have h1: "distinct (resolved_names (id_results demo_env (Some (lit ''docx'')) ?ids st0))"
    unfolding r by (rule a)
  have h2: "\<forall>n\<in>set (resolved_names (id_results demo_env (Some (lit ''docx'')) ?ids st0)).
      Ch (CHR 0x00) \<notin> set n"
    unfolding r using b1 b2 by simp
  have d: "distinct (map fst (fst (download demo_env (Some (lit ''docx'')) ?ids st0)))"
    using h1 h2 by (rule download_paths_distinct)
  have s: "resolved_names (id_results demo_env (Some (lit ''csv'')) [lit ''S1''] st0)
       = [lit ''My_Sheet_Q1_2024'']"
    by (simp add: id_files_def get_spreadsheet_title_eq create_spreadsheet_def get_sheet_ids_eq
        create_sheet_eq csv_body_def demo_env_def demo_page_def demo_soup_def st0_def leaf_def
        htmlview_url_def export_url_def gviz_url_def mobilebasic_url_def fetch_url_def
        fetch_url_try_def http_get_def logging_def is_sep_def
        split: prod.splits)
  have g1: "distinct (resolved_names (id_results demo_env (Some (lit ''csv'')) [lit ''S1''] st0))"
    unfolding s by simp
  have g2: "\<forall>n\<in>set (resolved_names (id_results demo_env (Some (lit ''csv'')) [lit ''S1''] st0)).
      Ch (CHR 0x00) \<notin> set n"
    unfolding s by simp
  have e: "distinct (map fst (fst (download demo_env (Some (lit ''csv'')) [lit ''S1''] st0)))"
    using g1 g2 by (rule download_paths_distinct)
  from r a b1 b2 d s e show ?thesis by (intro conjI)
qed

theorem download_paths_counterexample:
  "map fst (fst (download demo_env (Some (lit ''docx'')) [lit ''D1'', lit ''D5''] st0))
     = [lit ''Report_1_0.docx'', lit ''Report_1_0.docx'']
   \<and> \<not> distinct (map fst
         (fst (download demo_env (Some (lit ''docx'')) [lit ''D1'', lit ''D5''] st0)))
   \<and> map fst (fst (download demo_env (Some (lit ''csv'')) [lit ''S5''] st0))
       = [lit ''a'', lit ''a'']"
  by (simp add: download_def download_try_def writestr_def zip_name_def utf8_size_def
      surrogate_def create_document_eq get_spreadsheet_title_eq create_spreadsheet_def
      get_sheet_ids_eq create_sheet_eq csv_body_def nul_title_def
      demo_env_def demo_page_def demo_soup_def
      st0_def leaf_def htmlview_url_def export_url_def gviz_url_def mobilebasic_url_def
      fetch_url_def fetch_url_try_def http_get_def logging_def content_root_def
      page_title_def is_sep_def split: prod.splits)

lemma id_files_docx_requested:
  "requested (snd (id_files env (Some (lit ''docx'')) i st))
     = requested st @ [mobilebasic_url i]"
proof -
  have "snd (id_files env (Some (lit ''docx'')) i st) = snd (create_document env i st)"
    by (simp add: id_files_def split: prod.splits sum.splits)
  then show ?thesis
    by (simp add: create_document_snd fetch_url_requested)
qed

lemma download_loop_docx_requested:
  "requested (snd (download_loop env (Some (lit ''docx'')) ids zf st))
     = requested st @ map mobilebasic_url ids"
proof (induction ids arbitrary: zf st)
  case Nil
  show ?case by simp
next
  case (Cons i ids)
  obtain r st' where c: "id_files env (Some (lit ''docx'')) i st = (r, st')"
    by (cases "id_files env (Some (lit ''docx'')) i st")
  define st'' where "st'' =
    (if failed r then logging (Log_exception (lit ''Failed to process document ID: '' @ i)) st'
     else st')"
  define zf' where "zf' = zf @ (case r of Inl e \<Rightarrow> [] | Inr (name, files) \<Rightarrow> stored files)"
  have "requested st' = requested st @ [mobilebasic_url i]"
    using id_files_docx_requested [of env i st] c by simp
  then have p: "requested st'' = requested st @ [mobilebasic_url i]"
    unfolding st''_def by (simp add: logging_requested)
  have s: "download_loop env (Some (lit ''docx'')) (i # ids) zf st
      = download_loop env (Some (lit ''docx'')) ids zf' st''"
    unfolding download_loop_step c st''_def zf'_def by simp
  have "requested (snd (download_loop env (Some (lit ''docx'')) ids zf' st''))
      = requested st'' @ map mobilebasic_url ids"
    by (rule Cons.IH)
  with p show ?case unfolding s by simp
qed

lemma id_files_csv_requested:
  "htmlview_url i \<in> set (requested (snd (id_files env (Some (lit ''csv'')) i st)))"
proof -
  obtain t st1 where g: "get_spreadsheet_title env i st = (t, st1)"
    by (cases "get_spreadsheet_title env i st")
  have "requested st1 = requested st @ [htmlview_url i]"
    using get_spreadsheet_title_snd [of env i st] g fetch_url_requested [of env "htmlview_url i" st]
    by simp
  then have m: "htmlview_url i \<in> set (requested st1)" by simp
  have b: "grows st1 (snd (create_spreadsheet env i st1))"
    by (rule create_spreadsheet_grows)
  have "snd (id_files env (Some (lit ''csv'')) i st) = st1
      \<or> snd (id_files env (Some (lit ''csv'')) i st) = snd (create_spreadsheet env i st1)"
    using g by (auto simp: id_files_def split: prod.splits sum.splits)
  with m b show ?thesis by (auto dest: grows_requested_mem)
qed

lemma download_loop_csv_requested:
  "i \<in> set ids \<Longrightarrow>
     htmlview_url i \<in> set (requested (snd (download_loop env (Some (lit ''csv'')) ids zf st)))"
proof (induction ids arbitrary: zf st)
  case Nil
  then show ?case by simp
next
  case (Cons j ids)
  obtain r st' where c: "id_files env (Some (lit ''csv'')) j st = (r, st')"
    by (cases "id_files env (Some (lit ''csv'')) j st")
  define st'' where "st'' =
    (if failed r then logging (Log_exception (lit ''Failed to process document ID: '' @ j)) st'
     else st')"
  define zf' where "zf' = zf @ (case r of Inl e \<Rightarrow> [] | Inr (name, files) \<Rightarrow> stored files)"
  have "htmlview_url j \<in> set (requested st')"
    using id_files_csv_requested [of j env st] c by simp
  then have hd: "htmlview_url j \<in> set (requested st'')"
    unfolding st''_def by (simp add: logging_requested)
  have s: "download_loop env (Some (lit ''csv'')) (j # ids) zf st
      = download_loop env (Some (lit ''csv'')) ids zf' st''"
    unfolding download_loop_step c st''_def zf'_def by simp
  have "htmlview_url i
      \<in> set (requested (snd (download_loop env (Some (lit ''csv'')) ids zf' st'')))"
  proof (cases "i = j")
    case True
    with download_loop_grows [of st'' env "Some (lit ''csv'')" ids zf'] hd show ?thesis
      by (auto dest: grows_requested_mem)
  next
    case False
    with Cons.prems have "i \<in> set ids" by simp
    then show ?thesis by (rule Cons.IH)
  qed
  then show ?case unfolding s .
qed

text \<open>
  C9, as amended: no identifier is validated. \<open>download\<close> puts every id it is given,
  unchanged and whatever its characters, into the URLs it requests: for \<open>docx\<close> the
  requests are exactly the \<open>mobilebasic\<close> URLs of the ids, in order; for \<open>csv\<close> the
  \<open>htmlview\<close> URL of every id is requested; and \<open>create_sheet\<close> requests the export URL
  made of the spreadsheet id and the tab id it is given.
\<close>

theorem download_requests_ids_verbatim:
  "requested (snd (download env (Some (lit ''docx'')) doc_ids st))
     = requested st @ map mobilebasic_url doc_ids
   \<and> (\<forall>i\<in>set doc_ids.
         htmlview_url i \<in> set (requested (snd (download env (Some (lit ''csv'')) doc_ids st))))
   \<and> prefix (requested st @ [export_url sid tid])
        (requested (snd (create_sheet env sid tid st)))
   \<and> mobilebasic_url i = lit ''https://docs.google.com/document/d/'' @ i @ lit ''/mobilebasic''
   \<and> htmlview_url i
       = lit ''https://docs.google.com/spreadsheets/u/0/d/'' @ i @ lit ''/htmlview''
   \<and> export_url sid tid = lit ''https://docs.google.com/spreadsheets/d/'' @ sid
        @ lit ''/export?format=csv&gid='' @ tid"
proof (intro conjI ballI)
  show "requested (snd (download env (Some (lit ''docx'')) doc_ids st))
     = requested st @ map mobilebasic_url doc_ids"
    unfolding download_def by (simp only: download_loop_docx_requested)
  show "htmlview_url i
      \<in> set (requested (snd (download env (Some (lit ''csv'')) doc_ids st)))"
    if "i \<in> set doc_ids" for i
    unfolding download_def using that by (rule download_loop_csv_requested)
  show "prefix (requested st @ [export_url sid tid])
        (requested (snd (create_sheet env sid tid st)))"
    by (rule create_sheet_requested)
  show "mobilebasic_url i
      = lit ''https://docs.google.com/document/d/'' @ i @ lit ''/mobilebasic''"
    by (simp add: mobilebasic_url_def)
  show "htmlview_url i
      = lit ''https://docs.google.com/spreadsheets/u/0/d/'' @ i @ lit ''/htmlview''"
    by (simp add: htmlview_url_def)
  show "export_url sid tid = lit ''https://docs.google.com/spreadsheets/d/'' @ sid
        @ lit ''/export?format=csv&gid='' @ tid"
    by (simp add: export_url_def)
qed

theorem download_requests_ids_verbatim_witness:
  "lit ''a b/../c?d=1&e#f'' \<in> set [lit ''S1'', lit ''a b/../c?d=1&e#f'']
   \<and> lit ''https://docs.google.com/spreadsheets/u/0/d/a b/../c?d=1&e#f/htmlview''
       \<in> set (requested (snd (download demo_env (Some (lit ''csv''))
                [lit ''S1'', lit ''a b/../c?d=1&e#f''] st0)))
   \<and> requested (snd (download demo_env (Some (lit ''docx''))
         [lit ''D1'', lit ''a b/../c?d=1&e#f''] st0))
       = [lit ''https://docs.google.com/document/d/D1/mobilebasic'',
          lit ''https://docs.google.com/document/d/a b/../c?d=1&e#f/mobilebasic'']"
proof -
  note t = download_requests_ids_verbatim [of demo_env _ st0]
  have m: "lit ''a b/../c?d=1&e#f'' \<in> set [lit ''S1'', lit ''a b/../c?d=1&e#f'']" by simp
  have a: "htmlview_url (lit ''a b/../c?d=1&e#f'')
       \<in> set (requested (snd (download demo_env (Some (lit ''csv''))
                [lit ''S1'', lit ''a b/../c?d=1&e#f''] st0)))"
    using t [of "[lit ''S1'', lit ''a b/../c?d=1&e#f'']", THEN conjunct2, THEN conjunct1,
        THEN bspec, OF m] .
  have b: "requested (snd (download demo_env (Some (lit ''docx''))
         [lit ''D1'', lit ''a b/../c?d=1&e#f''] st0))
       = requested st0 @ map mobilebasic_url [lit ''D1'', lit ''a b/../c?d=1&e#f'']"
    using t [of "[lit ''D1'', lit ''a b/../c?d=1&e#f'']", THEN conjunct1] .
  from m a b show ?thesis
    by (simp add: htmlview_url_def mobilebasic_url_def st0_def)
qed

theorem download_unvalidated_id_counterexample:
  "requested (snd (download demo_env (Some (lit ''docx'')) [lit ''../x?y=1#z''] st0))
     = [lit ''https://docs.google.com/document/d/../x?y=1#z/mobilebasic'']
   \<and> requested (snd (download demo_env (Some (lit ''csv'')) [lit ''../x?y=1#z''] st0))
     = [lit ''https://docs.google.com/spreadsheets/u/0/d/../x?y=1#z/htmlview'',
        lit ''https://docs.google.com/spreadsheets/u/0/d/../x?y=1#z/htmlview'',
        lit ''https://docs.google.com/spreadsheets/d/../x?y=1#z/export?format=csv&gid=0'',
        lit ''https://docs.google.com/spreadsheets/d/../x?y=1#z/gviz/tq?tqx=out:csv&gid=0'']"
  by (simp add: download_def download_try_def create_document_eq get_spreadsheet_title_eq
      create_spreadsheet_def get_sheet_ids_eq create_sheet_eq csv_body_def
      demo_env_def demo_page_def
      st0_def htmlview_url_def export_url_def gviz_url_def mobilebasic_url_def
      fetch_url_def fetch_url_try_def http_get_def logging_def)


end
